theory Spec2Isabelle
  imports Main "HOL-Library.Word"
begin

unbundle bit_operations_syntax

text \<open>
  The JSON codecs of \<^verbatim>\<open>api/util.go\<close> of the Aptos Go SDK: \<^verbatim>\<open>U64\<close> (a 64-bit unsigned
  integer that arrives as a JSON number or string and is written as a string),
  \<^verbatim>\<open>HexBytes\<close> (bytes that arrive as hex or base64 and are written as hex) and \<^verbatim>\<open>GUID\<close>
  (a creation number and an account address in a JSON object).

  The methods are embedded with their receiver threaded through: a call returns its
  status and the receiver's value afterwards. They lean on the standard library, whose
  behaviour is embedded with them: the scanner, the string unquoting and the string
  encoding of \<^verbatim>\<open>encoding/json\<close>, \<^verbatim>\<open>encoding/hex\<close>, \<^verbatim>\<open>encoding/base64\<close> and
  \<^verbatim>\<open>fmt.Sprintf\<close>. The three helpers of \<^verbatim>\<open>internal/util\<close> and the account address
  type are not among the sources; the helpers follow the spec, the address is a
  parameter.
\<close>

section \<open>Bytes, errors and call results\<close>

text \<open>
  A Go \<^verbatim>\<open>string\<close> and a Go \<^verbatim>\<open>[]byte\<close> holding JSON text are both byte sequences; they
  are modelled as \<^typ>\<open>string\<close> (a list of 8-bit \<^typ>\<open>char\<close>). The payload of a
  \<^verbatim>\<open>HexBytes\<close> is a list of 8-bit words, a \<^verbatim>\<open>uint64\<close> a 64-bit word.
\<close>

type_synonym byte = "8 word"
type_synonym uint64 = "64 word"

definition ord :: "char \<Rightarrow> nat" where
  "ord c = of_char c"

definition quote :: char where
  "quote = CHR 0x22"

definition backslash :: char where
  "backslash = CHR 0x5C"

text \<open>
  The error values the code can return. \<open>SyntaxError\<close> and \<open>UnmarshalTypeError\<close> come
  from \<^verbatim>\<open>encoding/json\<close>, \<open>CorruptInputError\<close> from \<^verbatim>\<open>encoding/base64\<close>;
  \<open>MalformedNumber\<close> and \<open>MalformedBytes\<close> are the failures of the decimal parser and of
  the hex codec of \<^verbatim>\<open>internal/util\<close>; \<open>AddressError\<close> is a failure of the account
  address's own decoder or encoder.
\<close>

datatype error =
    SyntaxError
  | UnmarshalTypeError
  | MalformedNumber
  | MalformedBytes
  | CorruptInputError
  | AddressError

text \<open>
  How a call of a method with an \<^verbatim>\<open>error\<close> result ends: it returns \<^verbatim>\<open>nil\<close> (\<open>Ok\<close>), returns an
  error, or does not return because of a run-time panic.
\<close>

datatype status = Ok | Failed error | Panic

section \<open>The decimal parser and printer\<close>

definition isDigit :: "char \<Rightarrow> bool" where
  "isDigit c = (0x30 \<le> ord c \<and> ord c \<le> 0x39)"

definition digitsValue :: "string \<Rightarrow> nat" where
  "digitsValue s = foldl (\<lambda>n c. 10 * n + (ord c - 0x30)) 0 s"

text \<open>
  Modelled from the spec: \<^verbatim>\<open>util.StrToUint64\<close> of \<^verbatim>\<open>internal/util\<close>, which is not
  among the sources. The spec: parsing the literal into a 64-bit unsigned integer must
  reject empty strings, non-digit characters, values exceeding \<open>2^64 - 1\<close> and leading or
  trailing whitespace; a literal is a base-10 non-negative integer.
\<close>

definition StrToUint64 :: "string \<Rightarrow> error + uint64" where
  "StrToUint64 s =
     (if s = [] then Inl MalformedNumber
      else if \<not> list_all isDigit s then Inl MalformedNumber
      else if 2 ^ 64 - 1 < digitsValue s then Inl MalformedNumber
      else Inr (word_of_nat (digitsValue s)))"

text \<open>
  \<^verbatim>\<open>fmt.Sprintf("%d", v)\<close> for an unsigned \<open>v\<close>: the decimal digits, most significant
  first, with no sign and no leading zero.
\<close>

definition digitChar :: "nat \<Rightarrow> char" where
  "digitChar d = ''0123456789'' ! d"

function Sprintf_d :: "nat \<Rightarrow> string" where
  "Sprintf_d n = (if n < 10 then [digitChar n] else Sprintf_d (n div 10) @ [digitChar (n mod 10)])"
  by pat_completeness auto
termination
  by (relation "measure (\<lambda>n. n)") auto

declare Sprintf_d.simps [simp del]

section \<open>The JSON scanner of encoding/json\<close>

text \<open>
  \<^verbatim>\<open>json.Unmarshal\<close> first runs \<^verbatim>\<open>checkValid\<close>: a pushdown automaton that reads the input
  one byte at a time. \<open>step\<close> is the current state function, \<open>parseState\<close> the stack of
  open composite values (its top is the head of the list).
\<close>

datatype pstate = parseObjectKey | parseObjectValue | parseArrayValue

datatype sstate =
    stateBeginValueOrEmpty | stateBeginValue | stateBeginStringOrEmpty | stateBeginString
  | stateEndValue | stateEndTop
  | stateInString | stateInStringEsc
  | stateInStringEscU | stateInStringEscU1 | stateInStringEscU12 | stateInStringEscU123
  | stateNeg | state1 | state0 | stateDot | stateDot0 | stateE | stateESign | stateE0
  | stateT | stateTr | stateTru
  | stateF | stateFa | stateFal | stateFals
  | stateN | stateNu | stateNul
  | stateError

record scanner =
  step :: sstate
  parseState :: "pstate list"

definition maxNestingDepth :: nat where
  "maxNestingDepth = 10000"

definition isSpace :: "char \<Rightarrow> bool" where
  "isSpace c = (c = CHR '' '' \<or> c = CHR 0x09 \<or> c = CHR 0x0D \<or> c = CHR 0x0A)"

definition isHex :: "char \<Rightarrow> bool" where
  "isHex c = (isDigit c \<or> (0x61 \<le> ord c \<and> ord c \<le> 0x66) \<or> (0x41 \<le> ord c \<and> ord c \<le> 0x46))"

definition scan_error :: "scanner \<Rightarrow> scanner" where
  "scan_error s = s\<lparr>step := stateError\<rparr>"

definition pushParseState :: "scanner \<Rightarrow> pstate \<Rightarrow> scanner" where
  "pushParseState s p =
     (let s' = s\<lparr>parseState := p # parseState s\<rparr>
      in if length (parseState s') \<le> maxNestingDepth then s' else scan_error s')"

definition popParseState :: "scanner \<Rightarrow> scanner" where
  "popParseState s =
     (let ps = tl (parseState s)
      in if ps = [] then \<lparr>step = stateEndTop, parseState = ps\<rparr>
         else \<lparr>step = stateEndValue, parseState = ps\<rparr>)"

definition stateEndTop_f :: "scanner \<Rightarrow> char \<Rightarrow> scanner" where
  "stateEndTop_f s c = (if \<not> isSpace c then scan_error s else s)"

definition stateEndValue_f :: "scanner \<Rightarrow> char \<Rightarrow> scanner" where
  "stateEndValue_f s c =
     (case parseState s of
        [] \<Rightarrow> stateEndTop_f (s\<lparr>step := stateEndTop\<rparr>) c
      | p # ps \<Rightarrow>
          if isSpace c then s\<lparr>step := stateEndValue\<rparr>
          else (case p of
              parseObjectKey \<Rightarrow>
                if c = CHR '':'' then \<lparr>step = stateBeginValue, parseState = parseObjectValue # ps\<rparr>
                else scan_error s
            | parseObjectValue \<Rightarrow>
                if c = CHR '','' then \<lparr>step = stateBeginString, parseState = parseObjectKey # ps\<rparr>
                else if c = CHR ''}'' then popParseState s
                else scan_error s
            | parseArrayValue \<Rightarrow>
                if c = CHR '','' then s\<lparr>step := stateBeginValue\<rparr>
                else if c = CHR '']'' then popParseState s
                else scan_error s))"

definition stateBeginString_f :: "scanner \<Rightarrow> char \<Rightarrow> scanner" where
  "stateBeginString_f s c =
     (if isSpace c then s
      else if c = quote then s\<lparr>step := stateInString\<rparr>
      else scan_error s)"

definition stateBeginStringOrEmpty_f :: "scanner \<Rightarrow> char \<Rightarrow> scanner" where
  "stateBeginStringOrEmpty_f s c =
     (if isSpace c then s
      else if c = CHR ''}'' then
        stateEndValue_f (s\<lparr>parseState := parseObjectValue # tl (parseState s)\<rparr>) c
      else stateBeginString_f s c)"

definition stateBeginValue_f :: "scanner \<Rightarrow> char \<Rightarrow> scanner" where
  "stateBeginValue_f s c =
     (if isSpace c then s
      else if c = CHR ''{'' then pushParseState (s\<lparr>step := stateBeginStringOrEmpty\<rparr>) parseObjectKey
      else if c = CHR ''['' then pushParseState (s\<lparr>step := stateBeginValueOrEmpty\<rparr>) parseArrayValue
      else if c = quote then s\<lparr>step := stateInString\<rparr>
      else if c = CHR ''-'' then s\<lparr>step := stateNeg\<rparr>
      else if c = CHR ''0'' then s\<lparr>step := state0\<rparr>
      else if c = CHR ''t'' then s\<lparr>step := stateT\<rparr>
      else if c = CHR ''f'' then s\<lparr>step := stateF\<rparr>
      else if c = CHR ''n'' then s\<lparr>step := stateN\<rparr>
      else if 0x31 \<le> ord c \<and> ord c \<le> 0x39 then s\<lparr>step := state1\<rparr>
      else scan_error s)"

definition stateBeginValueOrEmpty_f :: "scanner \<Rightarrow> char \<Rightarrow> scanner" where
  "stateBeginValueOrEmpty_f s c =
     (if isSpace c then s
      else if c = CHR '']'' then stateEndValue_f s c
      else stateBeginValue_f s c)"

definition stateInString_f :: "scanner \<Rightarrow> char \<Rightarrow> scanner" where
  "stateInString_f s c =
     (if c = quote then s\<lparr>step := stateEndValue\<rparr>
      else if c = backslash then s\<lparr>step := stateInStringEsc\<rparr>
      else if ord c < 0x20 then scan_error s
      else s)"

definition stateInStringEsc_f :: "scanner \<Rightarrow> char \<Rightarrow> scanner" where
  "stateInStringEsc_f s c =
     (if c \<in> set ''bfnrt'' \<or> c = backslash \<or> c = CHR ''/'' \<or> c = quote
        then s\<lparr>step := stateInString\<rparr>
      else if c = CHR ''u'' then s\<lparr>step := stateInStringEscU\<rparr>
      else scan_error s)"

definition state0_f :: "scanner \<Rightarrow> char \<Rightarrow> scanner" where
  "state0_f s c =
     (if c = CHR ''.'' then s\<lparr>step := stateDot\<rparr>
      else if c = CHR ''e'' \<or> c = CHR ''E'' then s\<lparr>step := stateE\<rparr>
      else stateEndValue_f s c)"

definition stateESign_f :: "scanner \<Rightarrow> char \<Rightarrow> scanner" where
  "stateESign_f s c = (if isDigit c then s\<lparr>step := stateE0\<rparr> else scan_error s)"

definition expect :: "scanner \<Rightarrow> char \<Rightarrow> char \<Rightarrow> sstate \<Rightarrow> scanner" where
  "expect s c want next = (if c = want then s\<lparr>step := next\<rparr> else scan_error s)"

text \<open>One call \<^verbatim>\<open>s.step(s, c)\<close>.\<close>

definition scan_step :: "scanner \<Rightarrow> char \<Rightarrow> scanner" where
  "scan_step s c =
     (case step s of
        stateBeginValueOrEmpty \<Rightarrow> stateBeginValueOrEmpty_f s c
      | stateBeginValue \<Rightarrow> stateBeginValue_f s c
      | stateBeginStringOrEmpty \<Rightarrow> stateBeginStringOrEmpty_f s c
      | stateBeginString \<Rightarrow> stateBeginString_f s c
      | stateEndValue \<Rightarrow> stateEndValue_f s c
      | stateEndTop \<Rightarrow> stateEndTop_f s c
      | stateInString \<Rightarrow> stateInString_f s c
      | stateInStringEsc \<Rightarrow> stateInStringEsc_f s c
      | stateInStringEscU \<Rightarrow> (if isHex c then s\<lparr>step := stateInStringEscU1\<rparr> else scan_error s)
      | stateInStringEscU1 \<Rightarrow> (if isHex c then s\<lparr>step := stateInStringEscU12\<rparr> else scan_error s)
      | stateInStringEscU12 \<Rightarrow> (if isHex c then s\<lparr>step := stateInStringEscU123\<rparr> else scan_error s)
      | stateInStringEscU123 \<Rightarrow> (if isHex c then s\<lparr>step := stateInString\<rparr> else scan_error s)
      | stateNeg \<Rightarrow>
          (if c = CHR ''0'' then s\<lparr>step := state0\<rparr>
           else if 0x31 \<le> ord c \<and> ord c \<le> 0x39 then s\<lparr>step := state1\<rparr>
           else scan_error s)
      | state1 \<Rightarrow> (if isDigit c then s\<lparr>step := state1\<rparr> else state0_f s c)
      | state0 \<Rightarrow> state0_f s c
      | stateDot \<Rightarrow> (if isDigit c then s\<lparr>step := stateDot0\<rparr> else scan_error s)
      | stateDot0 \<Rightarrow>
          (if isDigit c then s
           else if c = CHR ''e'' \<or> c = CHR ''E'' then s\<lparr>step := stateE\<rparr>
           else stateEndValue_f s c)
      | stateE \<Rightarrow>
          (if c = CHR ''+'' \<or> c = CHR ''-'' then s\<lparr>step := stateESign\<rparr>
           else stateESign_f s c)
      | stateESign \<Rightarrow> stateESign_f s c
      | stateE0 \<Rightarrow> (if isDigit c then s else stateEndValue_f s c)
      | stateT \<Rightarrow> expect s c (CHR ''r'') stateTr
      | stateTr \<Rightarrow> expect s c (CHR ''u'') stateTru
      | stateTru \<Rightarrow> expect s c (CHR ''e'') stateEndValue
      | stateF \<Rightarrow> expect s c (CHR ''a'') stateFa
      | stateFa \<Rightarrow> expect s c (CHR ''l'') stateFal
      | stateFal \<Rightarrow> expect s c (CHR ''s'') stateFals
      | stateFals \<Rightarrow> expect s c (CHR ''e'') stateEndValue
      | stateN \<Rightarrow> expect s c (CHR ''u'') stateNu
      | stateNu \<Rightarrow> expect s c (CHR ''l'') stateNul
      | stateNul \<Rightarrow> expect s c (CHR ''l'') stateEndValue
      | stateError \<Rightarrow> s)"

definition scan_reset :: scanner where
  "scan_reset = \<lparr>step = stateBeginValue, parseState = []\<rparr>"

text \<open>\<^verbatim>\<open>scanner.eof\<close>: the input is complete when the top-level value has ended, if need be
  after one more space.\<close>

definition scan_eof :: "scanner \<Rightarrow> bool" where
  "scan_eof s =
     (if step s = stateError then False
      else if step s = stateEndTop then True
      else step (scan_step s (CHR '' '')) = stateEndTop)"

definition checkValid :: "string \<Rightarrow> bool" where
  "checkValid data = scan_eof (foldl scan_step scan_reset data)"

section \<open>UTF-8 and string literals\<close>

definition RuneError :: nat where
  "RuneError = 0xFFFD"

definition cont :: "char \<Rightarrow> bool" where
  "cont c = (0x80 \<le> ord c \<and> ord c \<le> 0xBF)"

text \<open>\<^verbatim>\<open>utf8.DecodeRune\<close>: the first code point of a byte sequence and its width; an
  invalid or short encoding is \<open>(RuneError, 1)\<close>.\<close>

fun DecodeRune :: "string \<Rightarrow> nat \<times> nat" where
  "DecodeRune [] = (RuneError, 0)"
| "DecodeRune (c0 # cs) =
     (let b0 = ord c0;
          lo = (if b0 = 0xE0 then 0xA0 else if b0 = 0xF0 then 0x90 else 0x80);
          hi = (if b0 = 0xED then 0x9F else if b0 = 0xF4 then 0x8F else 0xBF)
      in if b0 < 0x80 then (b0, 1)
         else if b0 < 0xC2 then (RuneError, 1)
         else if b0 < 0xE0 then
           (case cs of
              c1 # _ \<Rightarrow>
                if lo \<le> ord c1 \<and> ord c1 \<le> hi
                then (b0 mod 0x20 * 0x40 + ord c1 mod 0x40, 2) else (RuneError, 1)
            | _ \<Rightarrow> (RuneError, 1))
         else if b0 < 0xF0 then
           (case cs of
              c1 # c2 # _ \<Rightarrow>
                if lo \<le> ord c1 \<and> ord c1 \<le> hi \<and> cont c2
                then ((b0 mod 0x10 * 0x40 + ord c1 mod 0x40) * 0x40 + ord c2 mod 0x40, 3)
                else (RuneError, 1)
            | _ \<Rightarrow> (RuneError, 1))
         else if b0 < 0xF5 then
           (case cs of
              c1 # c2 # c3 # _ \<Rightarrow>
                if lo \<le> ord c1 \<and> ord c1 \<le> hi \<and> cont c2 \<and> cont c3
                then (((b0 mod 0x08 * 0x40 + ord c1 mod 0x40) * 0x40 + ord c2 mod 0x40) * 0x40
                        + ord c3 mod 0x40, 4)
                else (RuneError, 1)
            | _ \<Rightarrow> (RuneError, 1))
         else (RuneError, 1))"

text \<open>\<^verbatim>\<open>utf8.EncodeRune\<close>; a surrogate or a value above U+10FFFF is written as U+FFFD.\<close>

definition EncodeRune :: "nat \<Rightarrow> string" where
  "EncodeRune r =
     (if r \<le> 0x7F then [char_of r]
      else if r \<le> 0x7FF then [char_of (0xC0 + r div 0x40), char_of (0x80 + r mod 0x40)]
      else if 0x10FFFF < r \<or> (0xD800 \<le> r \<and> r \<le> 0xDFFF) then [CHR 0xEF, CHR 0xBF, CHR 0xBD]
      else if r \<le> 0xFFFF then
        [char_of (0xE0 + r div 0x1000), char_of (0x80 + r div 0x40 mod 0x40),
         char_of (0x80 + r mod 0x40)]
      else
        [char_of (0xF0 + r div 0x40000), char_of (0x80 + r div 0x1000 mod 0x40),
         char_of (0x80 + r div 0x40 mod 0x40), char_of (0x80 + r mod 0x40)])"

definition hexVal :: "char \<Rightarrow> nat" where
  "hexVal c =
     (if isDigit c then ord c - 0x30
      else if 0x61 \<le> ord c \<and> ord c \<le> 0x66 then ord c - 0x61 + 10
      else ord c - 0x41 + 10)"

text \<open>\<^verbatim>\<open>getu4\<close>: the value of a leading \<^verbatim>\<open>\uXXXX\<close> escape, if there is one.\<close>

fun getu4 :: "string \<Rightarrow> nat option" where
  "getu4 (b # u # h1 # h2 # h3 # h4 # _) =
     (if b = backslash \<and> u = CHR ''u'' \<and> isHex h1 \<and> isHex h2 \<and> isHex h3 \<and> isHex h4
      then Some (((hexVal h1 * 16 + hexVal h2) * 16 + hexVal h3) * 16 + hexVal h4)
      else None)"
| "getu4 _ = None"

text \<open>\<^verbatim>\<open>utf16.DecodeRune\<close> on a first escape and an optional second one.\<close>

definition utf16_DecodeRune :: "nat \<Rightarrow> nat option \<Rightarrow> nat" where
  "utf16_DecodeRune r1 r2 =
     (case r2 of
        None \<Rightarrow> RuneError
      | Some r2' \<Rightarrow>
          if 0xD800 \<le> r1 \<and> r1 < 0xDC00 \<and> 0xDC00 \<le> r2' \<and> r2' < 0xE000
          then (r1 - 0xD800) * 0x400 + (r2' - 0xDC00) + 0x10000
          else RuneError)"

text \<open>
  The loop of \<^verbatim>\<open>unquoteBytes\<close> over the text between the quotes. \<open>None\<close> is its
  \<^verbatim>\<open>ok = false\<close>. (The loop that first skips a prefix with nothing to rewrite copies that
  prefix unchanged, as this one does.)
\<close>

fun unquote_body :: "string \<Rightarrow> string option" where
  "unquote_body [] = Some []"
| "unquote_body (c # cs) =
     (if c = backslash then
        (case cs of
           [] \<Rightarrow> None
         | e # es \<Rightarrow>
             if e = quote \<or> e = backslash \<or> e = CHR ''/'' \<or> e = CHR 0x27
               then map_option ((#) e) (unquote_body es)
             else if e = CHR ''b'' then map_option ((#) (CHR 0x08)) (unquote_body es)
             else if e = CHR ''f'' then map_option ((#) (CHR 0x0C)) (unquote_body es)
             else if e = CHR ''n'' then map_option ((#) (CHR 0x0A)) (unquote_body es)
             else if e = CHR ''r'' then map_option ((#) (CHR 0x0D)) (unquote_body es)
             else if e = CHR ''t'' then map_option ((#) (CHR 0x09)) (unquote_body es)
             else if e = CHR ''u'' then
               (case getu4 (c # cs) of
                  None \<Rightarrow> None
                | Some rr \<Rightarrow>
                    if 0xD800 \<le> rr \<and> rr < 0xE000 then
                      (if utf16_DecodeRune rr (getu4 (drop 4 es)) \<noteq> RuneError
                       then map_option ((@) (EncodeRune (utf16_DecodeRune rr (getu4 (drop 4 es)))))
                              (unquote_body (drop 10 es))
                       else map_option ((@) (EncodeRune RuneError)) (unquote_body (drop 4 es)))
                    else map_option ((@) (EncodeRune rr)) (unquote_body (drop 4 es)))
             else None)
      else if c = quote \<or> ord c < 0x20 then None
      else if ord c < 0x80 then map_option ((#) c) (unquote_body cs)
      else map_option ((@) (EncodeRune (fst (DecodeRune (c # cs)))))
             (unquote_body (drop (snd (DecodeRune (c # cs)) - 1) cs)))"

definition unquoteBytes :: "string \<Rightarrow> string option" where
  "unquoteBytes s =
     (if length s < 2 \<or> hd s \<noteq> quote \<or> last s \<noteq> quote then None
      else unquote_body (butlast (tl s)))"

section \<open>json.Unmarshal into a string, json.Marshal of a string\<close>

text \<open>The value token of a valid document: the text without the surrounding white space.\<close>

definition literal_of :: "string \<Rightarrow> string" where
  "literal_of data = rev (dropWhile isSpace (rev (dropWhile isSpace data)))"

text \<open>
  \<^verbatim>\<open>json.Unmarshal(data, &str)\<close> for a string variable holding \<open>str\<close>: the status and
  the variable's value afterwards. Invalid JSON is a syntax error; a string literal is
  unquoted into the variable; \<^verbatim>\<open>null\<close> leaves the variable as it is; every other value
  (number, boolean, array, object) is a type error. A literal that passed the scanner
  and does not unquote makes the decoder panic.
\<close>

definition json_Unmarshal_string :: "string \<Rightarrow> string \<Rightarrow> status \<times> string" where
  "json_Unmarshal_string data str =
     (if \<not> checkValid data then (Failed SyntaxError, str)
      else (case literal_of data of
              [] \<Rightarrow> (Panic, str)
            | c # cs \<Rightarrow>
                if c = quote then
                  (case unquoteBytes (c # cs) of
                     Some s \<Rightarrow> (Ok, s)
                   | None \<Rightarrow> (Panic, str))
                else if c = CHR ''n'' then (Ok, str)
                else (Failed UnmarshalTypeError, str)))"

definition hex :: string where
  "hex = ''0123456789abcdef''"

text \<open>\<^verbatim>\<open>htmlSafeSet\<close>: the ASCII bytes that \<^verbatim>\<open>json.Marshal\<close> copies as they are.\<close>

definition htmlSafe :: "char \<Rightarrow> bool" where
  "htmlSafe c =
     (0x20 \<le> ord c \<and> ord c < 0x80 \<and> c \<noteq> quote \<and> c \<noteq> backslash
      \<and> c \<noteq> CHR ''<'' \<and> c \<noteq> CHR ''>'' \<and> c \<noteq> CHR ''&'')"

definition escapeByte :: "char \<Rightarrow> string" where
  "escapeByte c =
     (if c = backslash \<or> c = quote then [backslash, c]
      else if c = CHR 0x08 then [backslash, CHR ''b'']
      else if c = CHR 0x0C then [backslash, CHR ''f'']
      else if c = CHR 0x0A then [backslash, CHR ''n'']
      else if c = CHR 0x0D then [backslash, CHR ''r'']
      else if c = CHR 0x09 then [backslash, CHR ''t'']
      else [backslash, CHR ''u'', CHR ''0'', CHR ''0'', hex ! (ord c div 16), hex ! (ord c mod 16)])"

text \<open>
  The loop of \<^verbatim>\<open>appendString\<close> with HTML escaping on, as \<^verbatim>\<open>json.Marshal\<close> runs it
  (Go 1.22 and later, where backspace and form feed have short escapes).
\<close>

fun appendString :: "string \<Rightarrow> string" where
  "appendString [] = []"
| "appendString (c # cs) =
     (if ord c < 0x80 then
        (if htmlSafe c then c # appendString cs else escapeByte c @ appendString cs)
      else if DecodeRune (c # cs) = (RuneError, 1) then
        backslash # ''ufffd'' @ appendString cs
      else if fst (DecodeRune (c # cs)) = 0x2028 \<or> fst (DecodeRune (c # cs)) = 0x2029 then
        backslash # ''u202'' @ [hex ! (fst (DecodeRune (c # cs)) mod 16)]
          @ appendString (drop (snd (DecodeRune (c # cs)) - 1) cs)
      else take (snd (DecodeRune (c # cs))) (c # cs)
          @ appendString (drop (snd (DecodeRune (c # cs)) - 1) cs))"

definition json_Marshal_string :: "string \<Rightarrow> string" where
  "json_Marshal_string s = quote # appendString s @ [quote]"

section \<open>U64\<close>

definition U64_ToUint64 :: "uint64 \<Rightarrow> uint64" where
  "U64_ToUint64 u = u"

text \<open>
  \<^verbatim>\<open>func (u *U64) UnmarshalJSON(b []byte) error\<close>: the status and the value of \<^verbatim>\<open>*u\<close>
  afterwards. Reading \<^verbatim>\<open>b[0]\<close> of an empty slice panics.
\<close>

fun U64_UnmarshalJSON :: "uint64 \<Rightarrow> string \<Rightarrow> status \<times> uint64" where
  "U64_UnmarshalJSON u [] = (Panic, u)"
| "U64_UnmarshalJSON u (c # cs) =
     (let b = c # cs;
          (st, str) = (if c = quote \<and> last b = quote then json_Unmarshal_string b [] else (Ok, b))
      in case st of
           Ok \<Rightarrow>
             (case StrToUint64 str of
                Inl err \<Rightarrow> (Failed err, u)
              | Inr uv \<Rightarrow> (Ok, uv))
         | _ \<Rightarrow> (st, u))"

declare U64_UnmarshalJSON.simps [simp del]

text \<open>\<^verbatim>\<open>func (u U64) MarshalJSON() ([]byte, error)\<close>; marshalling a string never fails.\<close>

definition U64_MarshalJSON :: "uint64 \<Rightarrow> error + string" where
  "U64_MarshalJSON u = Inr (json_Marshal_string (Sprintf_d (unat (U64_ToUint64 u))))"

section \<open>The hex codec and standard base64\<close>

definition hexByte :: "byte \<Rightarrow> string" where
  "hexByte v = [hex ! unat (drop_bit 4 v), hex ! unat (v AND 0x0F)]"

definition EncodeToString :: "byte list \<Rightarrow> string" where
  "EncodeToString bs = concat (map hexByte bs)"

text \<open>
  Modelled from the spec: \<^verbatim>\<open>util.BytesToHex\<close> of \<^verbatim>\<open>internal/util\<close>, which is not among
  the sources. The spec: encode always produces a \<^verbatim>\<open>0x\<close>-prefixed lowercase hexadecimal
  string; the empty byte sequence encodes as \<^verbatim>\<open>0x\<close>.
\<close>

definition BytesToHex :: "byte list \<Rightarrow> string" where
  "BytesToHex bs = ''0x'' @ EncodeToString bs"

text \<open>Two hexadecimal digits per byte, of either case, as \<^verbatim>\<open>hex.DecodeString\<close> reads them;
  an odd length or a byte that is no digit is an error.\<close>

fun hex_DecodeString :: "string \<Rightarrow> error + byte list" where
  "hex_DecodeString [] = Inr []"
| "hex_DecodeString [p] = Inl MalformedBytes"
| "hex_DecodeString (p # q # rest) =
     (if \<not> isHex p \<or> \<not> isHex q then Inl MalformedBytes
      else (case hex_DecodeString rest of
              Inl err \<Rightarrow> Inl err
            | Inr bs \<Rightarrow> Inr (word_of_nat (hexVal p * 16 + hexVal q) # bs)))"

definition HasPrefix :: "string \<Rightarrow> string \<Rightarrow> bool" where
  "HasPrefix s p = (length p \<le> length s \<and> take (length p) s = p)"

definition HasSuffix :: "string \<Rightarrow> string \<Rightarrow> bool" where
  "HasSuffix s p = (length p \<le> length s \<and> drop (length s - length p) s = p)"

definition TrimPrefix :: "string \<Rightarrow> string \<Rightarrow> string" where
  "TrimPrefix s p = (if HasPrefix s p then drop (length p) s else s)"

text \<open>
  Modelled from the spec: \<^verbatim>\<open>util.ParseHex\<close> of \<^verbatim>\<open>internal/util\<close>, which is not among
  the sources. The spec: a hexadecimal string to byte-sequence codec that reads valid
  hexadecimal with or without the \<^verbatim>\<open>0x\<close> prefix; \<^verbatim>\<open>0x123456\<close> is the bytes
  \<open>0x12, 0x34, 0x56\<close> and \<^verbatim>\<open>0x\<close> is the empty sequence.
\<close>

definition ParseHex :: "string \<Rightarrow> error + byte list" where
  "ParseHex hexStr = hex_DecodeString (TrimPrefix hexStr ''0x'')"

text \<open>The decode map of \<^verbatim>\<open>base64.StdEncoding\<close>: the value of an alphabet byte.\<close>

definition decodeMap :: "char \<Rightarrow> nat option" where
  "decodeMap c =
     (if 0x41 \<le> ord c \<and> ord c \<le> 0x5A then Some (ord c - 0x41)
      else if 0x61 \<le> ord c \<and> ord c \<le> 0x7A then Some (ord c - 0x61 + 26)
      else if 0x30 \<le> ord c \<and> ord c \<le> 0x39 then Some (ord c - 0x30 + 52)
      else if c = CHR ''+'' then Some 62
      else if c = CHR ''/'' then Some 63
      else None)"

definition isNewline :: "char \<Rightarrow> bool" where
  "isNewline c = (c = CHR 0x0A \<or> c = CHR 0x0D)"

text \<open>
  The bytes of one quantum of \<open>dlen = length dbuf\<close> six-bit values: the first
  \<open>dlen - 1\<close> bytes of the 24-bit group (the decoder is not strict: left-over bits
  are dropped).
\<close>

definition quantumBytes :: "nat list \<Rightarrow> byte list" where
  "quantumBytes dbuf =
     (let d = dbuf @ replicate (4 - length dbuf) 0;
          val = ((d ! 0 * 64 + d ! 1) * 64 + d ! 2) * 64 + d ! 3
      in take (length dbuf - 1)
           [word_of_nat (val div 65536), word_of_nat (val div 256), word_of_nat val])"

text \<open>
  What must follow the first padding byte of a quantum that holds \<open>j\<close> values: a quantum
  of two values needs a second \<^verbatim>\<open>=\<close>, and then only line breaks may follow.
\<close>

definition paddingOk :: "nat \<Rightarrow> string \<Rightarrow> bool" where
  "paddingOk j cs =
     (if j < 2 then False
      else if j = 2 then
        (case dropWhile isNewline cs of
           [] \<Rightarrow> False
         | x # r \<Rightarrow> x = CHR ''='' \<and> dropWhile isNewline r = [])
      else dropWhile isNewline cs = [])"

text \<open>
  \<^verbatim>\<open>Encoding.Decode\<close> with \<^verbatim>\<open>decodeQuantum\<close> inlined: \<open>dbuf\<close> is the values of the
  quantum being read. Line breaks are skipped; the input may end only between quanta.
\<close>

fun b64_Decode :: "nat list \<Rightarrow> string \<Rightarrow> error + byte list" where
  "b64_Decode dbuf [] = (if dbuf = [] then Inr [] else Inl CorruptInputError)"
| "b64_Decode dbuf (c # cs) =
     (case decodeMap c of
        Some v \<Rightarrow>
          if length dbuf = 3 then
            (case b64_Decode [] cs of
               Inl err \<Rightarrow> Inl err
             | Inr bs \<Rightarrow> Inr (quantumBytes (dbuf @ [v]) @ bs))
          else b64_Decode (dbuf @ [v]) cs
      | None \<Rightarrow>
          if isNewline c then b64_Decode dbuf cs
          else if c \<noteq> CHR ''='' then Inl CorruptInputError
          else if paddingOk (length dbuf) cs then Inr (quantumBytes dbuf)
          else Inl CorruptInputError)"

definition base64_DecodeString :: "string \<Rightarrow> error + byte list" where
  "base64_DecodeString s = b64_Decode [] s"

section \<open>HexBytes\<close>

text \<open>
  \<^verbatim>\<open>func (u *HexBytes) UnmarshalJSON(b []byte) error\<close>: the status and the value of
  \<^verbatim>\<open>*u\<close> afterwards.
\<close>

definition HexBytes_UnmarshalJSON :: "byte list \<Rightarrow> string \<Rightarrow> status \<times> byte list" where
  "HexBytes_UnmarshalJSON u b =
     (let (st, str) = json_Unmarshal_string b []
      in case st of
           Ok \<Rightarrow>
             if HasPrefix str ''0x'' then
               (case ParseHex str of
                  Inl err \<Rightarrow> (Failed err, u)
                | Inr bytes \<Rightarrow> (Ok, bytes))
             else if HasSuffix str ''='' then
               (case base64_DecodeString str of
                  Inl err \<Rightarrow> (Failed err, u)
                | Inr bytes \<Rightarrow> (Ok, bytes))
             else
               (case ParseHex str of
                  Inr bytes \<Rightarrow> (Ok, bytes)
                | Inl _ \<Rightarrow>
                    (case base64_DecodeString str of
                       Inl err \<Rightarrow> (Failed err, u)
                     | Inr bytes \<Rightarrow> (Ok, bytes)))
         | _ \<Rightarrow> (st, u))"

definition HexBytes_MarshalJSON :: "byte list \<Rightarrow> error + string" where
  "HexBytes_MarshalJSON u = Inr (json_Marshal_string (BytesToHex u))"

section \<open>json.Unmarshal into the struct of GUID.UnmarshalJSON\<close>

text \<open>
  The members of a JSON object in the order of the text, each as the bytes of its key
  literal and the bytes of its value. The decoder finds them with the scanner, on a text
  that \<^verbatim>\<open>checkValid\<close> has accepted; \<open>members\<close> walks such a text once. \<open>AtKey\<close> is
  before a key or the closing brace, \<open>InKey\<close> inside the key literal, \<open>AfterKey\<close> before
  the colon, \<open>AtValue\<close> before the value, \<open>InValue\<close> inside a value (with the number of
  open brackets, whether a string is open and whether a backslash was just read),
  \<open>AfterValue\<close> before the comma or the closing brace.
\<close>

datatype place =
    AtKey
  | InKey string bool
  | AfterKey string
  | AtValue string
  | InValue string string nat bool bool
  | AfterValue

fun members :: "place \<Rightarrow> (string \<times> string) list \<Rightarrow> string \<Rightarrow> (string \<times> string) list" where
  "members w acc [] = rev acc"
| "members AtKey acc (c # cs) =
     (if c = quote then members (InKey [c] False) acc cs
      else if c = CHR ''}'' then rev acc
      else members AtKey acc cs)"
| "members (InKey k esc) acc (c # cs) =
     (if esc then members (InKey (k @ [c]) False) acc cs
      else if c = backslash then members (InKey (k @ [c]) True) acc cs
      else if c = quote then members (AfterKey (k @ [c])) acc cs
      else members (InKey (k @ [c]) False) acc cs)"
| "members (AfterKey k) acc (c # cs) =
     (if c = CHR '':'' then members (AtValue k) acc cs else members (AfterKey k) acc cs)"
| "members (AtValue k) acc (c # cs) =
     (if isSpace c then members (AtValue k) acc cs
      else if c = quote then members (InValue k [c] 0 True False) acc cs
      else if c = CHR ''{'' \<or> c = CHR ''['' then members (InValue k [c] 1 False False) acc cs
      else members (InValue k [c] 0 False False) acc cs)"
| "members (InValue k v d instr esc) acc (c # cs) =
     (if instr then
        (if esc then members (InValue k (v @ [c]) d True False) acc cs
         else if c = backslash then members (InValue k (v @ [c]) d True True) acc cs
         else if c = quote then
           (if d = 0 then members AfterValue ((k, v @ [c]) # acc) cs
            else members (InValue k (v @ [c]) d False False) acc cs)
         else members (InValue k (v @ [c]) d True False) acc cs)
      else if d = 0 then
        (if isSpace c then members AfterValue ((k, v) # acc) cs
         else if c = CHR '','' then members AtKey ((k, v) # acc) cs
         else if c = CHR ''}'' then rev ((k, v) # acc)
         else members (InValue k (v @ [c]) 0 False False) acc cs)
      else
        (if c = quote then members (InValue k (v @ [c]) d True False) acc cs
         else if c = CHR ''{'' \<or> c = CHR ''['' then
           members (InValue k (v @ [c]) (Suc d) False False) acc cs
         else if c = CHR ''}'' \<or> c = CHR '']'' then
           (if d = 1 then members AfterValue ((k, v @ [c]) # acc) cs
            else members (InValue k (v @ [c]) (d - 1) False False) acc cs)
         else members (InValue k (v @ [c]) d False False) acc cs))"
| "members AfterValue acc (c # cs) =
     (if c = CHR '','' then members AtKey acc cs
      else if c = CHR ''}'' then rev acc
      else members AfterValue acc cs)"

text \<open>The members of an object text, which starts with its opening brace.\<close>

definition object_members :: "string \<Rightarrow> (string \<times> string) list" where
  "object_members item = members AtKey [] (tl item)"

text \<open>
  \<^verbatim>\<open>foldName\<close>, as far as it can reach an ASCII name: ASCII letters become upper case,
  and the two code points outside ASCII that fold to an ASCII letter, U+017F (long s) and
  U+212A (Kelvin sign), become \<^verbatim>\<open>S\<close> and \<^verbatim>\<open>K\<close>. Every other byte stays as it is, and
  so differs from every byte of a folded ASCII name.
\<close>

fun foldName :: "string \<Rightarrow> string" where
  "foldName [] = []"
| "foldName (c # cs) =
     (if 0x61 \<le> ord c \<and> ord c \<le> 0x7A
        then ''ABCDEFGHIJKLMNOPQRSTUVWXYZ'' ! (ord c - 0x61) # foldName cs
      else if c = CHR 0xC5 \<and> take 1 cs = [CHR 0xBF] then CHR ''S'' # foldName (drop 1 cs)
      else if c = CHR 0xE2 \<and> take 2 cs = [CHR 0x84, CHR 0xAA] then CHR ''K'' # foldName (drop 2 cs)
      else c # foldName cs)"

datatype field = creation_number | account_address

text \<open>The field of the struct that a key names: an exact match first, then a match up to
  case folding; a key that names no field is skipped.\<close>

definition field_of :: "string \<Rightarrow> field option" where
  "field_of key =
     (if key = ''creation_number'' then Some creation_number
      else if key = ''account_address'' then Some account_address
      else if foldName key = foldName ''creation_number'' then Some creation_number
      else if foldName key = foldName ''account_address'' then Some account_address
      else None)"

text \<open>
  The local struct \<^verbatim>\<open>inner\<close>. The account address is a type of \<^verbatim>\<open>internal/types\<close>, which
  is not among the sources: it is a type parameter here, and a \<^verbatim>\<open>*types.AccountAddress\<close>
  is an optional address (\<open>None\<close> is the nil pointer).
\<close>

record 'a inner =
  inner_CreationNumber :: uint64
  inner_AccountAddress :: "'a option"

text \<open>
  One member of the object, stored into the struct. \<open>dec\<close> is the address's own
  \<^verbatim>\<open>UnmarshalJSON\<close>, a parameter: it is called on what the pointer field points to
  (\<open>None\<close> when the field is nil, and the decoder then allocates a zero address to call
  it on) with the bytes of the value, and returns the address it has written or an error.
  So a second \<^verbatim>\<open>account_address\<close> member is decoded into the address that the first
  one left. A \<^verbatim>\<open>U64\<close> field gets every value, also \<^verbatim>\<open>null\<close>, through
  \<open>U64_UnmarshalJSON\<close>; a pointer field is set to nil by \<^verbatim>\<open>null\<close> and gets every other
  value through the decoder of the type it points to. After a failure the struct is
  dropped by \<^verbatim>\<open>GUID.UnmarshalJSON\<close>, and the model returns it as it was.
\<close>

definition store_member ::
  "('a option \<Rightarrow> string \<Rightarrow> error + 'a) \<Rightarrow> 'a inner \<Rightarrow> string \<times> string \<Rightarrow> status \<times> 'a inner" where
  "store_member dec d m =
     (case unquoteBytes (fst m) of
        None \<Rightarrow> (Panic, d)
      | Some key \<Rightarrow>
          (case field_of key of
             None \<Rightarrow> (Ok, d)
           | Some creation_number \<Rightarrow>
               (case U64_UnmarshalJSON (inner_CreationNumber d) (snd m) of
                  (st, v) \<Rightarrow> (st, d\<lparr>inner_CreationNumber := v\<rparr>))
           | Some account_address \<Rightarrow>
               if take 1 (snd m) = ''n'' then (Ok, d\<lparr>inner_AccountAddress := None\<rparr>)
               else (case dec (inner_AccountAddress d) (snd m) of
                       Inl err \<Rightarrow> (Failed err, d)
                     | Inr a \<Rightarrow> (Ok, d\<lparr>inner_AccountAddress := Some a\<rparr>))))"

text \<open>The members in order; the first failure ends the decoding.\<close>

fun store_members ::
  "('a option \<Rightarrow> string \<Rightarrow> error + 'a) \<Rightarrow> 'a inner \<Rightarrow> (string \<times> string) list \<Rightarrow> status \<times> 'a inner" where
  "store_members dec d [] = (Ok, d)"
| "store_members dec d (m # ms) =
     (case store_member dec d m of
        (Ok, d') \<Rightarrow> store_members dec d' ms
      | (st, d') \<Rightarrow> (st, d'))"

text \<open>
  \<^verbatim>\<open>json.Unmarshal(b, &data)\<close> for \<^verbatim>\<open>data\<close> of type \<^verbatim>\<open>*inner\<close> pointing to \<open>d\<close>: the
  status and what \<^verbatim>\<open>data\<close> points to afterwards. An object is stored member by member;
  \<^verbatim>\<open>null\<close> sets the pointer \<^verbatim>\<open>data\<close> itself to nil; every other value is a type error.
\<close>

definition json_Unmarshal_inner ::
  "('a option \<Rightarrow> string \<Rightarrow> error + 'a) \<Rightarrow> string \<Rightarrow> 'a inner \<Rightarrow> status \<times> 'a inner option" where
  "json_Unmarshal_inner dec b d =
     (if \<not> checkValid b then (Failed SyntaxError, Some d)
      else (case literal_of b of
              [] \<Rightarrow> (Panic, Some d)
            | c # cs \<Rightarrow>
                if c = CHR ''{'' then
                  (case store_members dec d (object_members (c # cs)) of
                     (st, d') \<Rightarrow> (st, Some d'))
                else if c = CHR ''n'' then (Ok, None)
                else (Failed UnmarshalTypeError, Some d)))"

section \<open>GUID\<close>

record 'a GUID =
  CreationNumber :: uint64
  AccountAddress :: "'a option"

text \<open>
  \<^verbatim>\<open>func (o *GUID) UnmarshalJSON(b []byte) error\<close>: the status and the value of \<^verbatim>\<open>*o\<close>
  afterwards. \<^verbatim>\<open>data\<close> starts as a pointer to a zero \<^verbatim>\<open>inner\<close>; reading a field through
  it when the decoder has set it to nil panics.
\<close>

definition GUID_UnmarshalJSON ::
  "('a option \<Rightarrow> string \<Rightarrow> error + 'a) \<Rightarrow> 'a GUID \<Rightarrow> string \<Rightarrow> status \<times> 'a GUID" where
  "GUID_UnmarshalJSON dec o' b =
     (case json_Unmarshal_inner dec b \<lparr>inner_CreationNumber = 0, inner_AccountAddress = None\<rparr> of
        (Ok, None) \<Rightarrow> (Panic, o')
      | (Ok, Some data) \<Rightarrow>
          (Ok, (o'\<lparr>AccountAddress := inner_AccountAddress data\<rparr>)
                 \<lparr>CreationNumber := U64_ToUint64 (inner_CreationNumber data)\<rparr>)
      | (st, _) \<Rightarrow> (st, o'))"

text \<open>
  \<^verbatim>\<open>func (o *GUID) MarshalJSON() ([]byte, error)\<close>: the two fields under their names, in
  the order of the struct. \<open>enc\<close> is the JSON that \<^verbatim>\<open>json.Marshal\<close> writes for an address
  (its own \<^verbatim>\<open>MarshalJSON\<close>), a parameter; a nil pointer is written as \<^verbatim>\<open>null\<close>.
\<close>

definition GUID_MarshalJSON :: "('a \<Rightarrow> error + string) \<Rightarrow> 'a GUID \<Rightarrow> error + string" where
  "GUID_MarshalJSON enc o' =
     (case U64_MarshalJSON (CreationNumber o') of
        Inl err \<Rightarrow> Inl err
      | Inr cn \<Rightarrow>
          (case (case AccountAddress o' of None \<Rightarrow> Inr ''null'' | Some a \<Rightarrow> enc a) of
             Inl err \<Rightarrow> Inl err
           | Inr aa \<Rightarrow>
               Inr (''{'' @ json_Marshal_string ''creation_number'' @ '':'' @ cn
                    @ '','' @ json_Marshal_string ''account_address'' @ '':'' @ aa @ ''}'')))"

text \<open>\<^verbatim>\<open>type Hash = string\<close>: an alias, with no code of its own.\<close>

type_synonym Hash = string

text \<open>
  To run the code on concrete inputs the absent address type needs a stand-in: an address
  is represented by the bytes of its JSON token. The decoder overwrites what it is called
  on with the token and the encoder writes the token back.
\<close>

definition token_address_decode :: "string option \<Rightarrow> string \<Rightarrow> error + string" where
  "token_address_decode old raw = Inr raw"

definition token_address_encode :: "string \<Rightarrow> error + string" where
  "token_address_encode a = Inr a"

section \<open>Notions used in the statements\<close>

text \<open>A byte that stands for itself inside a JSON string literal: printable ASCII other
  than the quote and the backslash.\<close>

definition plain :: "char \<Rightarrow> bool" where
  "plain c = (0x20 \<le> ord c \<and> ord c < 0x80 \<and> c \<noteq> quote \<and> c \<noteq> backslash)"

text \<open>The scanner inside a top-level string literal.\<close>

abbreviation inStr :: scanner where
  "inStr \<equiv> \<lparr>step = stateInString, parseState = []\<rparr>"

text \<open>A lowercase hexadecimal digit.\<close>

definition isLowerHex :: "char \<Rightarrow> bool" where
  "isLowerHex c = (c \<in> set hex)"

text \<open>The field of the struct that a member of an object is stored into, if any.\<close>

definition member_field :: "string \<times> string \<Rightarrow> field option" where
  "member_field m = (case unquoteBytes (fst m) of None \<Rightarrow> None | Some key \<Rightarrow> field_of key)"

section \<open>Evaluation rules\<close>

lemmas char_defs = ord_def quote_def backslash_def isDigit_def isSpace_def isHex_def

lemmas scan_defs =
  checkValid_def scan_eof_def scan_reset_def scan_step_def scan_error_def
  pushParseState_def popParseState_def maxNestingDepth_def expect_def
  stateEndTop_f_def stateEndValue_f_def stateBeginString_f_def stateBeginStringOrEmpty_f_def
  stateBeginValue_f_def stateBeginValueOrEmpty_f_def stateInString_f_def stateInStringEsc_f_def
  state0_f_def stateESign_f_def

lemmas json_defs =
  json_Unmarshal_string_def literal_of_def unquoteBytes_def json_Marshal_string_def htmlSafe_def
  escapeByte_def hex_def

lemmas hex_defs =
  HexBytes_UnmarshalJSON_def HexBytes_MarshalJSON_def ParseHex_def TrimPrefix_def HasPrefix_def
  HasSuffix_def BytesToHex_def EncodeToString_def hexByte_def hexVal_def
  base64_DecodeString_def decodeMap_def isNewline_def quantumBytes_def paddingOk_def

lemmas guid_defs =
  GUID_UnmarshalJSON_def GUID_MarshalJSON_def json_Unmarshal_inner_def object_members_def
  store_member_def field_of_def U64_ToUint64_def token_address_decode_def
  token_address_encode_def member_field_def

lemmas u64_defs =
  U64_UnmarshalJSON.simps U64_MarshalJSON_def U64_ToUint64_def StrToUint64_def digitsValue_def
  Sprintf_d.simps digitChar_def plain_def

section \<open>The scanner and string literals\<close>


lemma scan_error_absorb: "step s = stateError \<Longrightarrow> step (foldl scan_step s xs) = stateError"
  by (induction xs arbitrary: s) (simp_all add: scan_step_def)

lemma scan_in_string_plain:
  "list_all plain xs \<Longrightarrow>
   foldl scan_step \<lparr>step = stateInString, parseState = ps\<rparr> xs = \<lparr>step = stateInString, parseState = ps\<rparr>"
  by (induction xs) (simp_all add: scan_step_def stateInString_f_def plain_def)

lemma checkValid_quoted:
  assumes "list_all plain xs"
  shows "checkValid (quote # xs @ [quote])"
proof -
  have q: "\<not> isSpace quote" "quote \<noteq> CHR ''{''" "quote \<noteq> CHR ''[''"
    by (simp_all add: isSpace_def quote_def)
  have run: "foldl scan_step scan_reset (quote # xs @ [quote]) = \<lparr>step = stateEndValue, parseState = []\<rparr>"
    using assms q
    by (simp add: scan_in_string_plain scan_reset_def scan_step_def stateBeginValue_f_def stateInString_f_def)
  have "scan_eof \<lparr>step = stateEndValue, parseState = []\<rparr>"
    by (simp add: scan_eof_def scan_step_def stateEndValue_f_def stateEndTop_f_def isSpace_def)
  with run show ?thesis
    by (simp only: checkValid_def)
qed

lemma unquote_body_plain: "list_all plain xs \<Longrightarrow> unquote_body xs = Some xs"
  by (induction xs) (auto simp: plain_def)

lemma literal_of_quoted: "literal_of (quote # xs @ [quote]) = quote # xs @ [quote]"
  by (simp add: literal_of_def isSpace_def quote_def)

lemma json_Unmarshal_string_quoted:
  "list_all plain xs \<Longrightarrow> json_Unmarshal_string (quote # xs @ [quote]) str = (Ok, xs)"
  by (simp add: json_Unmarshal_string_def checkValid_quoted literal_of_quoted unquoteBytes_def unquote_body_plain)

lemma appendString_safe: "list_all htmlSafe xs \<Longrightarrow> appendString xs = xs"
  by (induction xs) (auto simp: htmlSafe_def)

lemma isDigit_plain: "isDigit c \<Longrightarrow> plain c"
  by (auto simp: isDigit_def plain_def quote_def backslash_def ord_def)

lemma isDigit_htmlSafe: "isDigit c \<Longrightarrow> htmlSafe c"
  by (auto simp: isDigit_def htmlSafe_def quote_def backslash_def ord_def)

lemma digit_table: "list_all (\<lambda>d. isDigit (digitChar d) \<and> ord (digitChar d) - 0x30 = d) [0..<10]"
  by code_simp

lemma digitChar_props: "d < 10 \<Longrightarrow> isDigit (digitChar d) \<and> ord (digitChar d) - 0x30 = d"
  using digit_table by (simp add: list_all_iff)

lemma Sprintf_d_digits: "list_all isDigit (Sprintf_d n)"
proof (induction n rule: Sprintf_d.induct)
  case (1 n)
  show ?case
  proof (cases "n < 10")
    case True
    then show ?thesis by (simp add: Sprintf_d.simps [of n] digitChar_props)
  next
    case False
    with 1 show ?thesis by (simp add: Sprintf_d.simps [of n] digitChar_props)
  qed
qed

lemma Sprintf_d_nonempty: "Sprintf_d n \<noteq> []"
  by (subst Sprintf_d.simps) simp

lemma digitsValue_snoc: "digitsValue (xs @ [c]) = 10 * digitsValue xs + (ord c - 0x30)"
  by (simp add: digitsValue_def)

lemma digitsValue_Sprintf_d: "digitsValue (Sprintf_d n) = n"
proof (induction n rule: Sprintf_d.induct)
  case (1 n)
  show ?case
  proof (cases "n < 10")
    case True
    then show ?thesis by (simp add: Sprintf_d.simps [of n] digitChar_props digitsValue_def)
  next
    case False
    with 1 show ?thesis by (simp add: Sprintf_d.simps [of n] digitChar_props digitsValue_snoc)
  qed
qed

lemma StrToUint64_Sprintf_d: "StrToUint64 (Sprintf_d (unat (v :: uint64))) = Inr v"
proof -
  have "unat v < 2 ^ 64" using unsigned_less [of v, where 'a = nat] by simp
  then have "\<not> (2 ^ 64 - 1 < unat v)" by simp
  then show ?thesis
    by (simp add: StrToUint64_def Sprintf_d_nonempty Sprintf_d_digits digitsValue_Sprintf_d)
qed


lemma scan_eof_error: "step s = stateError \<Longrightarrow> \<not> scan_eof s"
  by (simp add: scan_eof_def)

lemma scan_after_top: "step s = stateEndTop \<Longrightarrow> step (foldl scan_step s (xs @ [quote])) = stateError"
proof (induction xs arbitrary: s)
  case Nil
  then show ?case by (simp add: scan_step_def stateEndTop_f_def isSpace_def quote_def scan_error_def)
next
  case (Cons x xs)
  show ?case
  proof (cases "isSpace x")
    case True
    with Cons.prems have "scan_step s x = s" by (simp add: scan_step_def stateEndTop_f_def)
    with Cons show ?thesis by simp
  next
    case False
    with Cons.prems have "step (scan_step s x) = stateError"
      by (simp add: scan_step_def stateEndTop_f_def scan_error_def)
    then show ?thesis using scan_error_absorb [of "scan_step s x" "xs @ [quote]"] by simp
  qed
qed

lemma scan_after_string:
  "step (foldl scan_step \<lparr>step = stateEndValue, parseState = []\<rparr> (xs @ [quote])) = stateError"
proof (cases xs)
  case Nil
  then show ?thesis
    by (simp add: scan_step_def stateEndValue_f_def stateEndTop_f_def isSpace_def quote_def scan_error_def)
next
  case (Cons x xs')
  have "step (scan_step \<lparr>step = stateEndValue, parseState = []\<rparr> x) = stateEndTop
      \<or> step (scan_step \<lparr>step = stateEndValue, parseState = []\<rparr> x) = stateError"
    by (simp add: scan_step_def stateEndValue_f_def stateEndTop_f_def scan_error_def)
  then show ?thesis
    using Cons scan_after_top [of "scan_step \<lparr>step = stateEndValue, parseState = []\<rparr> x" xs']
      scan_error_absorb [of "scan_step \<lparr>step = stateEndValue, parseState = []\<rparr> x" "xs' @ [quote]"]
    by auto
qed

lemma scan_high_bytes:
  "list_all (\<lambda>x. 0x80 \<le> ord x) xs \<Longrightarrow> foldl scan_step inStr xs = inStr"
  by (induction xs) (auto simp: scan_step_def stateInString_f_def quote_def backslash_def ord_def)

lemma DecodeRune_tail:
  "list_all (\<lambda>x. 0x80 \<le> ord x) (take (snd (DecodeRune (c # cs)) - 1) cs)"
proof -
  define lo where "lo = (if ord c = 0xE0 then 0xA0 else if ord c = 0xF0 then 0x90 else (0x80::nat))"
  define hi where "hi = (if ord c = 0xED then 0x9F else if ord c = 0xF4 then 0x8F else (0xBF::nat))"
  have lo: "0x80 \<le> lo" by (simp add: lo_def)
  have eq: "DecodeRune (c # cs) =
     (if ord c < 0x80 then (ord c, 1)
         else if ord c < 0xC2 then (RuneError, 1)
         else if ord c < 0xE0 then
           (case cs of
              c1 # _ \<Rightarrow>
                if lo \<le> ord c1 \<and> ord c1 \<le> hi
                then (ord c mod 0x20 * 0x40 + ord c1 mod 0x40, 2) else (RuneError, 1)
            | _ \<Rightarrow> (RuneError, 1))
         else if ord c < 0xF0 then
           (case cs of
              c1 # c2 # _ \<Rightarrow>
                if lo \<le> ord c1 \<and> ord c1 \<le> hi \<and> cont c2
                then ((ord c mod 0x10 * 0x40 + ord c1 mod 0x40) * 0x40 + ord c2 mod 0x40, 3)
                else (RuneError, 1)
            | _ \<Rightarrow> (RuneError, 1))
         else if ord c < 0xF5 then
           (case cs of
              c1 # c2 # c3 # _ \<Rightarrow>
                if lo \<le> ord c1 \<and> ord c1 \<le> hi \<and> cont c2 \<and> cont c3
                then (((ord c mod 0x08 * 0x40 + ord c1 mod 0x40) * 0x40 + ord c2 mod 0x40) * 0x40
                        + ord c3 mod 0x40, 4)
                else (RuneError, 1)
            | _ \<Rightarrow> (RuneError, 1))
         else (RuneError, 1))"
    unfolding DecodeRune.simps Let_def lo_def hi_def by (rule refl)
  consider (a) "ord c < 0xC2" | (b) "\<not> ord c < 0xC2" "ord c < 0xE0"
    | (c) "\<not> ord c < 0xE0" "ord c < 0xF0" | (d) "\<not> ord c < 0xF0" "ord c < 0xF5"
    | (e) "\<not> ord c < 0xF5"
    by linarith
  then show ?thesis
  proof cases
    case a
    then show ?thesis unfolding eq by simp
  next
    case b
    then show ?thesis unfolding eq using lo by (simp split: list.splits)
  next
    case c
    then show ?thesis unfolding eq using lo by (simp add: cont_def split: list.splits)
  next
    case d
    then show ?thesis unfolding eq using lo by (simp add: cont_def split: list.splits)
  next
    case e
    then show ?thesis unfolding eq by simp
  qed
qed

lemma getu4_SomeD:
  "getu4 xs = Some r \<Longrightarrow>
   \<exists>h1 h2 h3 h4 rest. xs = backslash # CHR ''u'' # h1 # h2 # h3 # h4 # rest
      \<and> isHex h1 \<and> isHex h2 \<and> isHex h3 \<and> isHex h4"
  by (cases xs rule: getu4.cases) (simp_all split: if_splits)

lemma scan_esc_u:
  "foldl scan_step inStr [backslash, CHR ''u''] = \<lparr>step = stateInStringEscU, parseState = []\<rparr>"
  by (simp add: scan_step_def stateInString_f_def stateInStringEsc_f_def quote_def backslash_def)

lemma scan_hex4:
  "isHex h1 \<Longrightarrow> isHex h2 \<Longrightarrow> isHex h3 \<Longrightarrow> isHex h4 \<Longrightarrow>
   foldl scan_step \<lparr>step = stateInStringEscU, parseState = []\<rparr> [h1, h2, h3, h4] = inStr"
  by (simp add: scan_step_def)

lemma getu4_scan:
  assumes "getu4 xs = Some r"
  shows "foldl scan_step inStr (xs @ ys) = foldl scan_step inStr (drop 6 xs @ ys)"
proof -
  from getu4_SomeD [OF assms] obtain h1 h2 h3 h4 rest where
    xs: "xs = [backslash, CHR ''u''] @ [h1, h2, h3, h4] @ rest"
    and h: "isHex h1" "isHex h2" "isHex h3" "isHex h4"
    by auto
  have "foldl scan_step inStr (xs @ ys) =
        foldl scan_step (foldl scan_step (foldl scan_step inStr [backslash, CHR ''u'']) [h1, h2, h3, h4]) (rest @ ys)"
    unfolding xs by (simp only: foldl_append append_assoc)
  also have "\<dots> = foldl scan_step inStr (rest @ ys)"
    by (simp only: scan_esc_u scan_hex4 [OF h])
  finally show ?thesis by (simp add: xs)
qed

lemma quote_not_hex: "\<not> isHex quote"
  by (simp add: isHex_def isDigit_def quote_def ord_def)

lemma scan_hex_fail1:
  "\<not> isHex h \<Longrightarrow>
   step (scan_step \<lparr>step = stateInStringEscU, parseState = []\<rparr> h) = stateError \<and>
   step (scan_step \<lparr>step = stateInStringEscU1, parseState = []\<rparr> h) = stateError \<and>
   step (scan_step \<lparr>step = stateInStringEscU12, parseState = []\<rparr> h) = stateError \<and>
   step (scan_step \<lparr>step = stateInStringEscU123, parseState = []\<rparr> h) = stateError"
  by (simp add: scan_step_def scan_error_def)

lemma scan_hex_fail:
  assumes "\<not> isHex h"
    and "st = stateInStringEscU \<or> st = stateInStringEscU1 \<or> st = stateInStringEscU12 \<or> st = stateInStringEscU123"
  shows "step (foldl scan_step \<lparr>step = st, parseState = []\<rparr> (h # xs)) = stateError"
proof -
  have "step (scan_step \<lparr>step = st, parseState = []\<rparr> h) = stateError"
    using assms(2) scan_hex_fail1 [OF assms(1)] by blast
  then show ?thesis
    using scan_error_absorb [of "scan_step \<lparr>step = st, parseState = []\<rparr> h" xs] by simp
qed

lemma scan_hex_ok:
  "isHex h \<Longrightarrow>
   scan_step \<lparr>step = stateInStringEscU, parseState = []\<rparr> h = \<lparr>step = stateInStringEscU1, parseState = []\<rparr> \<and>
   scan_step \<lparr>step = stateInStringEscU1, parseState = []\<rparr> h = \<lparr>step = stateInStringEscU12, parseState = []\<rparr> \<and>
   scan_step \<lparr>step = stateInStringEscU12, parseState = []\<rparr> h = \<lparr>step = stateInStringEscU123, parseState = []\<rparr>"
  by (simp add: scan_step_def)

lemma getu4_none_scan:
  assumes "getu4 (backslash # CHR ''u'' # es) = None"
  shows "step (foldl scan_step inStr (backslash # CHR ''u'' # es @ [quote])) = stateError"
proof -
  have e: "foldl scan_step inStr (backslash # CHR ''u'' # es @ [quote]) =
        foldl scan_step \<lparr>step = stateInStringEscU, parseState = []\<rparr> (es @ [quote])"
    using scan_esc_u by simp
  have "step (foldl scan_step \<lparr>step = stateInStringEscU, parseState = []\<rparr> (es @ [quote])) = stateError"
  proof (cases es)
    case Nil
    then show ?thesis using scan_hex_fail [OF quote_not_hex, of stateInStringEscU "[]"] by simp
  next
    case c1: (Cons h1 es1)
    show ?thesis
    proof (cases "isHex h1")
      case False
      then show ?thesis using scan_hex_fail [of h1 stateInStringEscU "es1 @ [quote]"] c1 by simp
    next
      case t1: True
      show ?thesis
      proof (cases es1)
        case Nil
        then show ?thesis using scan_hex_fail [OF quote_not_hex, of stateInStringEscU1 "[]"] c1 t1 scan_hex_ok [of h1] by simp
      next
        case c2: (Cons h2 es2)
        show ?thesis
        proof (cases "isHex h2")
          case False
          then show ?thesis using scan_hex_fail [of h2 stateInStringEscU1 "es2 @ [quote]"] c1 c2 t1 scan_hex_ok [of h1] by simp
        next
          case t2: True
          show ?thesis
          proof (cases es2)
            case Nil
            then show ?thesis using scan_hex_fail [OF quote_not_hex, of stateInStringEscU12 "[]"] c1 c2 t1 t2 scan_hex_ok [of h1] scan_hex_ok [of h2] by simp
          next
            case c3: (Cons h3 es3)
            show ?thesis
            proof (cases "isHex h3")
              case False
              then show ?thesis using scan_hex_fail [of h3 stateInStringEscU12 "es3 @ [quote]"] c1 c2 c3 t1 t2 scan_hex_ok [of h1] scan_hex_ok [of h2] by simp
            next
              case t3: True
              show ?thesis
              proof (cases es3)
                case Nil
                then show ?thesis using scan_hex_fail [OF quote_not_hex, of stateInStringEscU123 "[]"] c1 c2 c3 t1 t2 t3
                    scan_hex_ok [of h1] scan_hex_ok [of h2] scan_hex_ok [of h3] by simp
              next
                case c4: (Cons h4 es4)
                with assms c1 c2 c3 t1 t2 t3 have "\<not> isHex h4" by (simp split: if_splits)
                then show ?thesis using scan_hex_fail [of h4 stateInStringEscU123 "es4 @ [quote]"] c1 c2 c3 c4 t1 t2 t3
                    scan_hex_ok [of h1] scan_hex_ok [of h2] scan_hex_ok [of h3] by simp
              qed
            qed
          qed
        qed
      qed
    qed
  qed
  with e show ?thesis by simp
qed

lemma scan_eof_inStr: "\<not> scan_eof inStr"
  by (simp add: scan_eof_def scan_step_def stateInString_f_def quote_def backslash_def ord_def)

lemma utf16_valid_pair: "utf16_DecodeRune r1 r2 \<noteq> RuneError \<Longrightarrow> \<exists>r. r2 = Some r"
  by (cases r2) (simp_all add: utf16_DecodeRune_def)

lemma scan_esc_simple:
  "e = quote \<or> e = backslash \<or> e = CHR ''/'' \<or> e \<in> set ''bfnrt'' \<Longrightarrow>
   foldl scan_step inStr [backslash, e] = inStr"
  by (auto simp: scan_step_def stateInString_f_def stateInStringEsc_f_def quote_def backslash_def)

lemma scan_esc_bad:
  "\<not> (e = quote \<or> e = backslash \<or> e = CHR ''/'' \<or> e \<in> set ''bfnrt'') \<Longrightarrow> e \<noteq> CHR ''u'' \<Longrightarrow>
   step (foldl scan_step inStr [backslash, e]) = stateError"
  by (simp add: scan_step_def stateInString_f_def stateInStringEsc_f_def quote_def backslash_def scan_error_def)

lemma valid_string_unquotes:
  "scan_eof (foldl scan_step inStr (body @ [quote])) \<Longrightarrow> unquote_body body \<noteq> None"
proof (induction body rule: unquote_body.induct)
  case 1
  then show ?case by simp
next
  case (2 c cs)
  let ?run = "\<lambda>xs. foldl scan_step inStr (xs @ [quote])"
  have valid: "scan_eof (foldl scan_step (scan_step inStr c) (cs @ [quote]))"
    using "2.prems" by simp
  have no_err: "step (foldl scan_step s (cs @ [quote])) = stateError \<Longrightarrow> \<not> scan_eof (foldl scan_step s (cs @ [quote]))" for s
    by (rule scan_eof_error)
  consider (esc) "c = backslash" | (quo) "c \<noteq> backslash" "c = quote"
    | (ctl) "c \<noteq> backslash" "c \<noteq> quote" "ord c < 0x20"
    | (asc) "c \<noteq> backslash" "c \<noteq> quote" "\<not> ord c < 0x20" "ord c < 0x80"
    | (hi) "c \<noteq> backslash" "c \<noteq> quote" "\<not> ord c < 0x20" "\<not> ord c < 0x80"
    by blast
  then show ?case
  proof cases
    case quo
    have "scan_step inStr c = \<lparr>step = stateEndValue, parseState = []\<rparr>"
      using quo by (simp add: scan_step_def stateInString_f_def)
    with valid scan_after_string [of cs] show ?thesis
      by (simp add: scan_eof_error del: foldl_append)
  next
    case ctl
    have "step (scan_step inStr c) = stateError"
      using ctl by (simp add: scan_step_def stateInString_f_def scan_error_def)
    with valid scan_error_absorb [of "scan_step inStr c" "cs @ [quote]"] show ?thesis
      by (simp add: scan_eof_error del: foldl_append)
  next
    case asc
    have "scan_step inStr c = inStr"
      using asc by (simp add: scan_step_def stateInString_f_def)
    with valid have "scan_eof (?run cs)" by simp
    with "2.IH"(10) asc show ?thesis by simp
  next
    case hi
    let ?k = "snd (DecodeRune (c # cs)) - 1"
    have c: "scan_step inStr c = inStr"
      using hi by (simp add: scan_step_def stateInString_f_def)
    have "foldl scan_step inStr (cs @ [quote]) = foldl scan_step (foldl scan_step inStr (take ?k cs)) (drop ?k cs @ [quote])"
      by (simp only: foldl_append [symmetric] append_assoc [symmetric] append_take_drop_id)
    also have "\<dots> = ?run (drop ?k cs)"
      by (simp only: scan_high_bytes [OF DecodeRune_tail])
    finally have "scan_eof (?run (drop ?k cs))"
      using valid c by simp
    with "2.IH"(11) hi show ?thesis by simp
  next
    case esc
    show ?thesis
    proof (cases cs)
      case Nil
      have "foldl scan_step inStr [backslash, quote] = inStr"
        by (rule scan_esc_simple) simp
      with "2.prems" esc Nil scan_eof_inStr show ?thesis by simp
    next
      case (Cons e es)
      have split: "foldl scan_step inStr ((c # cs) @ [quote])
          = foldl scan_step (foldl scan_step inStr [backslash, e]) (es @ [quote])"
        using esc Cons by simp
      consider (simple) "e = quote \<or> e = backslash \<or> e = CHR ''/'' \<or> e \<in> set ''bfnrt''"
        | (u) "e = CHR ''u''"
        | (bad) "\<not> (e = quote \<or> e = backslash \<or> e = CHR ''/'' \<or> e \<in> set ''bfnrt'')" "e \<noteq> CHR ''u''"
        by blast
      then show ?thesis
      proof cases
        case simple
        have "scan_eof (?run es)"
          using "2.prems" unfolding split scan_esc_simple [OF simple] .
        then have "unquote_body es \<noteq> None"
          using "2.IH"(1-6) esc Cons simple by (auto simp: quote_def backslash_def)
        then show ?thesis
          using esc Cons simple by (auto simp: quote_def backslash_def)
      next
        case bad
        have "step (foldl scan_step inStr ((c # cs) @ [quote])) = stateError"
          unfolding split by (rule scan_error_absorb [OF scan_esc_bad [OF bad]])
        with "2.prems" show ?thesis by (simp only: scan_eof_error)
      next
        case u
        show ?thesis
        proof (cases "getu4 (c # cs)")
          case None
          then have "step (foldl scan_step inStr ((c # cs) @ [quote])) = stateError"
            using getu4_none_scan [of es] esc Cons u by simp
          with "2.prems" show ?thesis by (simp only: scan_eof_error)
        next
          case (Some rr)
          have d: "drop 6 (c # cs) = drop 4 es"
            using Cons by simp
          have v4: "scan_eof (?run (drop 4 es))"
            using "2.prems" unfolding getu4_scan [OF Some] d .
          have ne: "e \<noteq> quote" "e \<noteq> backslash" "e \<noteq> CHR ''/''" "e \<noteq> CHR 0x27"
            "e \<noteq> CHR ''b''" "e \<noteq> CHR ''f''" "e \<noteq> CHR ''n''" "e \<noteq> CHR ''r''" "e \<noteq> CHR ''t''"
            using u by (simp_all add: quote_def backslash_def)
          show ?thesis
          proof (cases "(0xD800 \<le> rr \<and> rr < 0xE000) \<and> utf16_DecodeRune rr (getu4 (drop 4 es)) \<noteq> RuneError")
            case True
            then obtain r2 where r2: "getu4 (drop 4 es) = Some r2"
              using utf16_valid_pair by blast
            have "scan_eof (?run (drop 10 es))"
              using v4 unfolding getu4_scan [OF r2] by simp
            then have "unquote_body (drop 10 es) \<noteq> None"
              using "2.IH"(7) [OF esc Cons _ ne(5-9) u Some] True ne by simp
            then show ?thesis
              using esc Cons u Some True ne by simp
          next
            case False
            have "unquote_body (drop 4 es) \<noteq> None"
            proof (cases "0xD800 \<le> rr \<and> rr < 0xE000")
              case True
              with False have "\<not> utf16_DecodeRune rr (getu4 (drop 4 es)) \<noteq> RuneError" by simp
              then show ?thesis
                using "2.IH"(8) [OF esc Cons _ ne(5-9) u Some True _ v4] ne by simp
            next
              case nsur: False
              show ?thesis
                using "2.IH"(9) [OF esc Cons _ ne(5-9) u Some nsur v4] ne by simp
            qed
            then show ?thesis
              using esc Cons u Some False ne by auto
          qed
        qed
      qed
    qed
  qed
qed

section \<open>U64: decoding and encoding\<close>

lemma digits_plain: "list_all isDigit s \<Longrightarrow> list_all plain s"
  by (induction s) (simp_all add: isDigit_plain)

lemma digits_htmlSafe: "list_all isDigit s \<Longrightarrow> list_all htmlSafe s"
  by (induction s) (simp_all add: isDigit_htmlSafe)

lemma U64_UnmarshalJSON_bare:
  "\<not> (c = quote \<and> last (c # cs) = quote) \<Longrightarrow>
   U64_UnmarshalJSON u (c # cs) =
     (case StrToUint64 (c # cs) of Inl err \<Rightarrow> (Failed err, u) | Inr uv \<Rightarrow> (Ok, uv))"
  by (auto simp add: Let_def U64_UnmarshalJSON.simps simp del: last.simps)

lemma U64_UnmarshalJSON_string:
  "last (quote # cs) = quote \<Longrightarrow>
   U64_UnmarshalJSON u (quote # cs) =
     (case json_Unmarshal_string (quote # cs) [] of
        (Ok, str) \<Rightarrow> (case StrToUint64 str of Inl err \<Rightarrow> (Failed err, u) | Inr uv \<Rightarrow> (Ok, uv))
      | (st, str) \<Rightarrow> (st, u))"
  by (simp add: Let_def U64_UnmarshalJSON.simps del: last.simps split: prod.splits status.splits)

lemma U64_UnmarshalJSON_quoted:
  "list_all plain s \<Longrightarrow>
   U64_UnmarshalJSON u (quote # s @ [quote]) =
     (case StrToUint64 s of Inl err \<Rightarrow> (Failed err, u) | Inr uv \<Rightarrow> (Ok, uv))"
  by (simp add: U64_UnmarshalJSON_string json_Unmarshal_string_quoted)

lemma digit_not_quote: "isDigit c \<Longrightarrow> c \<noteq> quote"
  by (auto simp: isDigit_def quote_def ord_def)

lemma U64_UnmarshalJSON_digits:
  assumes "list_all isDigit s" "s \<noteq> []"
  shows "U64_UnmarshalJSON u s =
     (case StrToUint64 s of Inl err \<Rightarrow> (Failed err, u) | Inr uv \<Rightarrow> (Ok, uv))"
proof -
  from assms obtain c cs where s: "s = c # cs" and c: "isDigit c"
    by (cases s) auto
  show ?thesis
    unfolding s using digit_not_quote [OF c] by (intro U64_UnmarshalJSON_bare) simp
qed

lemma U64_MarshalJSON_eq: "U64_MarshalJSON v = Inr (quote # Sprintf_d (unat v) @ [quote])"
  by (simp add: U64_MarshalJSON_def U64_ToUint64_def json_Marshal_string_def
      appendString_safe digits_htmlSafe Sprintf_d_digits)

lemma U64_decode_bare: "U64_UnmarshalJSON u (Sprintf_d (unat n)) = (Ok, n)"
  by (simp add: U64_UnmarshalJSON_digits Sprintf_d_digits Sprintf_d_nonempty StrToUint64_Sprintf_d)

lemma U64_decode_quoted: "U64_UnmarshalJSON u (quote # Sprintf_d (unat n) @ [quote]) = (Ok, n)"
  by (simp add: U64_UnmarshalJSON_quoted digits_plain Sprintf_d_digits StrToUint64_Sprintf_d)

lemma U64_no_panic: "b \<noteq> [] \<Longrightarrow> fst (U64_UnmarshalJSON u b) \<noteq> Panic"
proof (cases b)
  case Nil
  assume "b \<noteq> []"
  with Nil show ?thesis by simp
next
  case (Cons c cs)
  show ?thesis
  proof (cases "c = quote \<and> last (c # cs) = quote")
    case False
    then show ?thesis
      unfolding Cons by (simp add: U64_UnmarshalJSON_bare split: sum.splits)
  next
    case True
    have "fst (json_Unmarshal_string (c # cs) []) \<noteq> Panic"
    proof (cases "checkValid (c # cs)")
      case False
      then show ?thesis by (simp add: json_Unmarshal_string_def)
    next
      case valid: True
      have "cs \<noteq> []"
      proof
        assume "cs = []"
        with valid True have "checkValid [quote]" by simp
        then show False by (simp add: scan_defs char_defs)
      qed
      with True obtain body where cs: "cs = body @ [quote]"
        by (cases cs rule: rev_cases) auto
      have "foldl scan_step scan_reset (c # cs) = foldl scan_step inStr (body @ [quote])"
        using True by (simp add: cs scan_reset_def scan_step_def stateBeginValue_f_def isSpace_def quote_def)
      with valid have "scan_eof (foldl scan_step inStr (body @ [quote]))"
        by (simp only: checkValid_def)
      then have "unquote_body body \<noteq> None"
        by (rule valid_string_unquotes)
      then show ?thesis
        using True valid literal_of_quoted [of body]
        by (auto simp: cs json_Unmarshal_string_def unquoteBytes_def)
    qed
    moreover have "U64_UnmarshalJSON u (c # cs) =
     (case json_Unmarshal_string (c # cs) [] of
        (Ok, str) \<Rightarrow> (case StrToUint64 str of Inl err \<Rightarrow> (Failed err, u) | Inr uv \<Rightarrow> (Ok, uv))
      | (st, str) \<Rightarrow> (st, u))"
      using True U64_UnmarshalJSON_string [of cs u] by blast
    ultimately show ?thesis
      unfolding Cons
      by (cases "json_Unmarshal_string (c # cs) []") (auto split: status.splits sum.splits)
  qed
qed

section \<open>HexBytes: the canonical hex form\<close>

lemma hex_table:
  "list_all (\<lambda>i. isLowerHex (hex ! i) \<and> isHex (hex ! i) \<and> hexVal (hex ! i) = i
     \<and> plain (hex ! i) \<and> htmlSafe (hex ! i)) [0..<16]"
  by code_simp

lemma hex_nth:
  "i < 16 \<Longrightarrow> isLowerHex (hex ! i) \<and> isHex (hex ! i) \<and> hexVal (hex ! i) = i
     \<and> plain (hex ! i) \<and> htmlSafe (hex ! i)"
  using hex_table by (simp add: list_all_iff)

lemma nibbles:
  fixes v :: byte
  shows "unat (drop_bit 4 v) < 16" "unat (v AND 0x0F) < 16"
    "word_of_nat (unat (drop_bit 4 v) * 16 + unat (v AND 0x0F)) = v"
proof -
  have v: "unat v < 256" using unsigned_less [of v, where 'a = nat] by simp
  have hi: "unat (drop_bit 4 v) = unat v div 16"
    by (simp add: unat_drop_bit_eq drop_bit_eq_div unat_div)
  have "v AND 0x0F = take_bit 4 v"
    using take_bit_eq_mask [of 4 v] by (simp add: mask_eq_exp_minus_1)
  then have lo: "unat (v AND 0x0F) = unat v mod 16"
    by (simp add: unsigned_take_bit_eq take_bit_eq_mod unat_mod)
  show "unat (drop_bit 4 v) < 16" using v hi by simp
  show "unat (v AND 0x0F) < 16" using lo by simp
  show "word_of_nat (unat (drop_bit 4 v) * 16 + unat (v AND 0x0F)) = v"
    unfolding hi lo by simp
qed

lemma hex_Decode_Encode: "hex_DecodeString (EncodeToString bs) = Inr bs"
proof (induction bs)
  case Nil
  then show ?case by (simp add: EncodeToString_def)
next
  case (Cons v bs)
  have "hex_DecodeString (EncodeToString (v # bs)) =
        hex_DecodeString (hex ! unat (drop_bit 4 v) # hex ! unat (v AND 0x0F) # EncodeToString bs)"
    by (simp add: EncodeToString_def hexByte_def)
  also have "\<dots> = Inr (v # bs)"
    using Cons hex_nth [OF nibbles(1) [of v]] hex_nth [OF nibbles(2) [of v]] nibbles(3) [of v]
    by simp
  finally show ?case .
qed

lemma EncodeToString_chars:
  "list_all isLowerHex (EncodeToString bs) \<and> list_all plain (EncodeToString bs)
   \<and> list_all htmlSafe (EncodeToString bs) \<and> length (EncodeToString bs) = 2 * length bs"
proof (induction bs)
  case Nil
  then show ?case by (simp add: EncodeToString_def)
next
  case (Cons v bs)
  have e: "EncodeToString (v # bs) = hex ! unat (drop_bit 4 v) # hex ! unat (v AND 0x0F) # EncodeToString bs"
    by (simp add: EncodeToString_def hexByte_def)
  show ?case
    unfolding e using Cons hex_nth [OF nibbles(1) [of v]] hex_nth [OF nibbles(2) [of v]] by simp
qed

lemma BytesToHex_chars: "list_all plain (BytesToHex bs) \<and> list_all htmlSafe (BytesToHex bs)"
  using EncodeToString_chars [of bs]
  by (simp add: BytesToHex_def plain_def htmlSafe_def char_defs)

lemma ParseHex_BytesToHex: "ParseHex (BytesToHex bs) = Inr bs"
  by (simp add: ParseHex_def BytesToHex_def TrimPrefix_def HasPrefix_def hex_Decode_Encode)

lemma HexBytes_MarshalJSON_eq:
  "HexBytes_MarshalJSON bs = Inr (quote # ''0x'' @ EncodeToString bs @ [quote])"
  using BytesToHex_chars [of bs]
  by (simp add: HexBytes_MarshalJSON_def json_Marshal_string_def appendString_safe)
     (simp add: BytesToHex_def)

lemma HexBytes_decode_encoded:
  "HexBytes_UnmarshalJSON u (quote # ''0x'' @ EncodeToString bs @ [quote]) = (Ok, bs)"
proof -
  have "json_Unmarshal_string (quote # BytesToHex bs @ [quote]) [] = (Ok, BytesToHex bs)"
    using BytesToHex_chars [of bs] by (simp add: json_Unmarshal_string_quoted)
  moreover have "HasPrefix (BytesToHex bs) ''0x''"
    by (simp add: HasPrefix_def BytesToHex_def)
  ultimately have "HexBytes_UnmarshalJSON u (quote # BytesToHex bs @ [quote]) = (Ok, bs)"
    by (simp add: HexBytes_UnmarshalJSON_def ParseHex_BytesToHex)
  then show ?thesis by (simp add: BytesToHex_def)
qed

section \<open>Failure and the members of an object\<close>


lemma U64_failure_keeps: "U64_UnmarshalJSON u b = (Failed err, u') \<Longrightarrow> u' = u"
  by (cases b)
     (auto simp: U64_UnmarshalJSON.simps Let_def split: prod.splits status.splits sum.splits if_splits)

lemma HexBytes_failure_keeps: "HexBytes_UnmarshalJSON h b = (Failed err, h') \<Longrightarrow> h' = h"
  by (auto simp: HexBytes_UnmarshalJSON_def split: prod.splits status.splits sum.splits if_splits)

lemma GUID_failure_keeps: "GUID_UnmarshalJSON dec g b = (Failed err, g') \<Longrightarrow> g' = g"
  by (auto simp: GUID_UnmarshalJSON_def split: prod.splits status.splits option.splits)








section \<open>Claims about U64\<close>

text \<open>
  C1. Round trip of \<^verbatim>\<open>U64\<close>: for every 64-bit value \<open>v\<close>, encoding succeeds and decoding
  the encoded token yields \<open>v\<close>, whatever the receiver held before. And for every token
  \<open>x\<close> that decodes to a value \<open>w\<close>, the token that encodes \<open>w\<close> decodes to the same
  result as \<open>x\<close>: it denotes the same number, although its text may differ (the witness
  decodes the bare \<^verbatim>\<open>7\<close> and gets the quoted \<^verbatim>\<open>"7"\<close> back).
\<close>
theorem U64_round_trip:
  "(\<exists>b. U64_MarshalJSON v = Inr b \<and> U64_UnmarshalJSON u b = (Ok, v)) \<and>
   (U64_UnmarshalJSON u x = (Ok, w) \<longrightarrow>
      (\<exists>y. U64_MarshalJSON w = Inr y \<and> U64_UnmarshalJSON u y = U64_UnmarshalJSON u x))"
  by (simp add: U64_MarshalJSON_eq U64_decode_quoted)

theorem U64_round_trip_witness:
  \<open>U64_UnmarshalJSON 0 ''7'' = (Ok, 7) \<and> U64_MarshalJSON 7 = Inr ''"7"'' \<and>
   U64_UnmarshalJSON 0 ''"7"'' = U64_UnmarshalJSON 0 ''7''\<close>
  using U64_round_trip [of 7 0 "''7''" 7]
  by (simp add: u64_defs char_defs scan_defs json_defs)

text \<open>
  C6. The two wire shapes of \<^verbatim>\<open>U64\<close>. For every 64-bit \<open>n\<close>, the bare decimal token of
  \<open>n\<close> and the same digits between double quotes both decode to \<open>n\<close>. The shape is
  chosen by the first and the last byte: when both are the double quote, the token is
  decoded as a JSON string and its content is the literal (for plain content this is the
  text between the quotes); otherwise the raw bytes are the literal.
\<close>
theorem U64_number_or_string:
  "U64_UnmarshalJSON u (Sprintf_d (unat n)) = (Ok, n) \<and>
   U64_UnmarshalJSON u (quote # Sprintf_d (unat n) @ [quote]) = (Ok, n) \<and>
   (last (quote # cs) = quote \<longrightarrow>
      U64_UnmarshalJSON u (quote # cs) =
        (case json_Unmarshal_string (quote # cs) [] of
           (Ok, str) \<Rightarrow>
             (case StrToUint64 str of Inl err \<Rightarrow> (Failed err, u) | Inr uv \<Rightarrow> (Ok, uv))
         | (st, str) \<Rightarrow> (st, u))) \<and>
   (list_all plain s \<longrightarrow>
      U64_UnmarshalJSON u (quote # s @ [quote]) =
        (case StrToUint64 s of Inl err \<Rightarrow> (Failed err, u) | Inr uv \<Rightarrow> (Ok, uv))) \<and>
   (\<not> (c = quote \<and> last (c # ds) = quote) \<longrightarrow>
      U64_UnmarshalJSON u (c # ds) =
        (case StrToUint64 (c # ds) of Inl err \<Rightarrow> (Failed err, u) | Inr uv \<Rightarrow> (Ok, uv)))"
  using U64_decode_bare U64_decode_quoted U64_UnmarshalJSON_string U64_UnmarshalJSON_quoted
    U64_UnmarshalJSON_bare
  by blast

theorem U64_number_or_string_witness:
  \<open>U64_UnmarshalJSON 0 ''7'' = (Ok, 7) \<and> U64_UnmarshalJSON 0 ''"7"'' = (Ok, 7) \<and>
   last ''"007"'' = quote \<and> list_all plain ''007'' \<and> U64_UnmarshalJSON 0 ''"007"'' = (Ok, 7) \<and>
   \<not> (CHR ''0'' = quote \<and> last ''007'' = quote) \<and> U64_UnmarshalJSON 0 ''007'' = (Ok, 7)\<close>
  using U64_number_or_string [of 0 7 "''007'' @ [quote]" "''007''" "CHR ''0''" "''07''"]
  by (simp add: u64_defs char_defs scan_defs json_defs)

text \<open>
  C7. The 64-bit boundary: the JSON string of \<open>2^64 - 1\<close> decodes to exactly that value,
  the JSON string of \<open>2^64\<close> fails and leaves the receiver as it was, and every digit
  string whose value is \<open>2^64\<close> or more is rejected, bare or quoted.
\<close>
theorem U64_boundary:
  \<open>U64_UnmarshalJSON u ''"18446744073709551615"'' = (Ok, word_of_nat (2 ^ 64 - 1)) \<and>
   unat (word_of_nat (2 ^ 64 - 1) :: uint64) = 2 ^ 64 - 1 \<and>
   U64_UnmarshalJSON u ''"18446744073709551616"'' = (Failed MalformedNumber, u) \<and>
   (list_all isDigit s \<and> 2 ^ 64 \<le> digitsValue s \<longrightarrow>
      U64_UnmarshalJSON u s = (Failed MalformedNumber, u) \<and>
      U64_UnmarshalJSON u (quote # s @ [quote]) = (Failed MalformedNumber, u))\<close>
proof -
  have a: \<open>U64_UnmarshalJSON u ''"18446744073709551615"'' = (Ok, word_of_nat (2 ^ 64 - 1))\<close>
    by (simp add: u64_defs char_defs scan_defs json_defs)
  have b: "unat (word_of_nat (2 ^ 64 - 1) :: uint64) = 2 ^ 64 - 1"
    by (simp add: unat_of_nat)
  have c: \<open>U64_UnmarshalJSON u ''"18446744073709551616"'' = (Failed MalformedNumber, u)\<close>
    by (simp add: u64_defs char_defs scan_defs json_defs)
  have d: "U64_UnmarshalJSON u s = (Failed MalformedNumber, u) \<and>
      U64_UnmarshalJSON u (quote # s @ [quote]) = (Failed MalformedNumber, u)"
    if s: "list_all isDigit s" and big: "2 ^ 64 \<le> digitsValue s"
  proof -
    have ne: "s \<noteq> []" using big by (auto simp: digitsValue_def)
    have "StrToUint64 s = Inl MalformedNumber"
      using big by (simp add: StrToUint64_def)
    then show ?thesis
      by (simp add: U64_UnmarshalJSON_digits [OF s ne] U64_UnmarshalJSON_quoted [OF digits_plain [OF s]])
  qed
  from a b c d show ?thesis by blast
qed

theorem U64_boundary_witness:
  \<open>list_all isDigit ''99999999999999999999'' \<and> 2 ^ 64 \<le> digitsValue ''99999999999999999999'' \<and>
   U64_UnmarshalJSON 5 ''99999999999999999999'' = (Failed MalformedNumber, 5) \<and>
   U64_UnmarshalJSON 5 ''"99999999999999999999"'' = (Failed MalformedNumber, 5)\<close>
  using U64_boundary [of 5 "''99999999999999999999''"]
  by (simp add: char_defs digitsValue_def)

text \<open>
  C10. \<^verbatim>\<open>U64.UnmarshalJSON\<close> reads \<^verbatim>\<open>b[0]\<close> without a length check: on the empty slice
  the call panics instead of returning an error, and on every non-empty slice it returns,
  with a value or with an error that leaves the receiver as it was.
\<close>
theorem U64_empty_input_panics:
  "U64_UnmarshalJSON u [] = (Panic, u) \<and>
   (b \<noteq> [] \<longrightarrow>
      (\<exists>v. U64_UnmarshalJSON u b = (Ok, v)) \<or> (\<exists>err. U64_UnmarshalJSON u b = (Failed err, u)))"
proof -
  have "(\<exists>v. U64_UnmarshalJSON u b = (Ok, v)) \<or> (\<exists>err. U64_UnmarshalJSON u b = (Failed err, u))"
    if ne: "b \<noteq> []"
  proof -
    obtain c cs where b: "b = c # cs" using ne by (cases b) auto
    have np: "fst (U64_UnmarshalJSON u b) \<noteq> Panic" by (rule U64_no_panic [OF ne])
    show ?thesis
      using np unfolding b
      by (cases "fst (U64_UnmarshalJSON u (c # cs))")
         (auto simp: U64_UnmarshalJSON.simps Let_def split: prod.splits status.splits sum.splits if_splits)
  qed
  then show ?thesis by (simp add: U64_UnmarshalJSON.simps)
qed

theorem U64_empty_input_panics_witness:
  \<open>U64_UnmarshalJSON 5 [] = (Panic, 5) \<and> ''x'' \<noteq> [] \<and> U64_UnmarshalJSON 5 ''x'' = (Failed MalformedNumber, 5)\<close>
  using U64_empty_input_panics [of 5 "''x''"]
  by (simp add: u64_defs char_defs)

section \<open>Claims about HexBytes\<close>

text \<open>
  C2. Round trip of \<^verbatim>\<open>HexBytes\<close>: for every byte sequence \<open>bs\<close>, encoding yields the
  JSON string \<^verbatim>\<open>"0x\<close>\<open>\<dots>\<close>\<^verbatim>\<open>"\<close> with two lowercase hexadecimal digits per byte, and
  decoding that token yields exactly \<open>bs\<close>, whatever the receiver held before. The
  encoded form depends on the bytes only: whatever token \<open>x\<close> the bytes were decoded
  from, hex or base64, their encoding is the \<^verbatim>\<open>0x\<close> form and decodes to the same result.
\<close>
theorem HexBytes_round_trip:
  "HexBytes_MarshalJSON bs = Inr (quote # ''0x'' @ EncodeToString bs @ [quote]) \<and>
   list_all isLowerHex (EncodeToString bs) \<and>
   length (EncodeToString bs) = 2 * length bs \<and>
   HexBytes_UnmarshalJSON u (quote # ''0x'' @ EncodeToString bs @ [quote]) = (Ok, bs) \<and>
   (HexBytes_UnmarshalJSON u x = (Ok, bs) \<longrightarrow>
      (\<exists>y. HexBytes_MarshalJSON bs = Inr y \<and> HexBytes_UnmarshalJSON u y = HexBytes_UnmarshalJSON u x
           \<and> take 3 y = quote # ''0x''))"
  using EncodeToString_chars [of bs] HexBytes_MarshalJSON_eq [of bs] HexBytes_decode_encoded [of u bs]
  by simp

theorem HexBytes_round_trip_witness:
  \<open>HexBytes_UnmarshalJSON [] ''"Eg=="'' = (Ok, [0x12]) \<and> HexBytes_MarshalJSON [0x12] = Inr ''"0x12"'' \<and>
   HexBytes_UnmarshalJSON [] ''"0x12"'' = HexBytes_UnmarshalJSON [] ''"Eg=="''\<close>
  using HexBytes_round_trip [of "[0x12]" "[]" \<open>''"Eg=="''\<close>]
  by (simp add: char_defs scan_defs json_defs hex_defs)

text \<open>
  C3. The order of the format tests of \<^verbatim>\<open>HexBytes.UnmarshalJSON\<close>, for every input that
  is a JSON string with content \<open>str\<close>: with the prefix \<^verbatim>\<open>0x\<close> the result is that of the
  hex decoder alone; else with the suffix \<^verbatim>\<open>=\<close> it is that of the base64 decoder alone;
  otherwise it is that of the hex decoder when it succeeds and that of the base64 decoder
  when it does not. The call returns an error exactly when all the attempts of its case
  fail, and then the receiver is unchanged. The witness shows that the order matters:
  \<^verbatim>\<open>0xA=\<close> is valid base64 and still fails, \<^verbatim>\<open>abcd\<close> is read as hex, not as base64.
\<close>
theorem HexBytes_decision_order:
  "json_Unmarshal_string b [] = (Ok, str) \<longrightarrow>
     (HasPrefix str ''0x'' \<longrightarrow>
        HexBytes_UnmarshalJSON u b =
          (case ParseHex str of Inl err \<Rightarrow> (Failed err, u) | Inr bytes \<Rightarrow> (Ok, bytes))) \<and>
     (\<not> HasPrefix str ''0x'' \<and> HasSuffix str ''='' \<longrightarrow>
        HexBytes_UnmarshalJSON u b =
          (case base64_DecodeString str of Inl err \<Rightarrow> (Failed err, u) | Inr bytes \<Rightarrow> (Ok, bytes))) \<and>
     (\<not> HasPrefix str ''0x'' \<and> \<not> HasSuffix str ''='' \<longrightarrow>
        HexBytes_UnmarshalJSON u b =
          (case ParseHex str of
             Inr bytes \<Rightarrow> (Ok, bytes)
           | Inl _ \<Rightarrow>
               (case base64_DecodeString str of
                  Inl err \<Rightarrow> (Failed err, u)
                | Inr bytes \<Rightarrow> (Ok, bytes)))) \<and>
     ((\<exists>err. HexBytes_UnmarshalJSON u b = (Failed err, u)) \<longleftrightarrow>
        (if HasPrefix str ''0x'' then isl (ParseHex str)
         else if HasSuffix str ''='' then isl (base64_DecodeString str)
         else isl (ParseHex str) \<and> isl (base64_DecodeString str)))"
  by (auto simp: HexBytes_UnmarshalJSON_def split: sum.splits)

theorem HexBytes_decision_order_witness:
  \<open>json_Unmarshal_string ''"0xA="'' [] = (Ok, ''0xA='') \<and> HasPrefix ''0xA='' ''0x'' \<and>
   base64_DecodeString ''0xA='' = Inr [0xD3, 0x10] \<and>
   HexBytes_UnmarshalJSON [] ''"0xA="'' = (Failed MalformedBytes, []) \<and>
   json_Unmarshal_string ''"Eg=="'' [] = (Ok, ''Eg=='') \<and> \<not> HasPrefix ''Eg=='' ''0x'' \<and>
   HasSuffix ''Eg=='' ''='' \<and> HexBytes_UnmarshalJSON [] ''"Eg=="'' = (Ok, [0x12]) \<and>
   json_Unmarshal_string ''"abcd"'' [] = (Ok, ''abcd'') \<and> \<not> HasPrefix ''abcd'' ''0x'' \<and>
   \<not> HasSuffix ''abcd'' ''='' \<and> base64_DecodeString ''abcd'' = Inr [0x69, 0xB7, 0x1D] \<and>
   HexBytes_UnmarshalJSON [] ''"abcd"'' = (Ok, [0xAB, 0xCD]) \<and>
   json_Unmarshal_string ''"EjRW"'' [] = (Ok, ''EjRW'') \<and>
   HexBytes_UnmarshalJSON [] ''"EjRW"'' = (Ok, [0x12, 0x34, 0x56])\<close>
  using HexBytes_decision_order [of \<open>''"0xA="''\<close> "''0xA=''" "[]"]
    HexBytes_decision_order [of \<open>''"Eg=="''\<close> "''Eg==''" "[]"]
    HexBytes_decision_order [of \<open>''"abcd"''\<close> "''abcd''" "[]"]
    HexBytes_decision_order [of \<open>''"EjRW"''\<close> "''EjRW''" "[]"]
  by (simp add: char_defs scan_defs json_defs hex_defs)

text \<open>
  C5, as the spec states it, fails for the empty JSON string: decoding \<^verbatim>\<open>""\<close> does not
  fail, it succeeds and replaces the receiver by the empty byte sequence.
\<close>
theorem HexBytes_empty_string_counterexample:
  \<open>HexBytes_UnmarshalJSON [0x12] ''""'' = (Ok, [])\<close>
  by (simp add: char_defs scan_defs json_defs hex_defs)

text \<open>
  C5, amended: decoding \<^verbatim>\<open>"0x"\<close> succeeds and yields the empty byte sequence, and so
  does decoding the empty JSON string \<^verbatim>\<open>""\<close>: it has neither the prefix nor the suffix,
  and both the hex decoder and the base64 decoder read the empty string as no bytes.
\<close>

theorem HexBytes_empty_inputs:
  \<open>HexBytes_UnmarshalJSON u ''"0x"'' = (Ok, []) \<and> HexBytes_UnmarshalJSON u ''""'' = (Ok, []) \<and>
   base64_DecodeString '''' = Inr []\<close>
  by (simp add: char_defs scan_defs json_defs hex_defs)

section \<open>Claims about GUID and about decoding as a whole\<close>

text \<open>
  C9. Decoding is all or nothing: when \<^verbatim>\<open>U64.UnmarshalJSON\<close>, \<^verbatim>\<open>HexBytes.UnmarshalJSON\<close>
  or \<^verbatim>\<open>GUID.UnmarshalJSON\<close> returns an error, the receiver holds afterwards exactly the
  value it held before the call; nothing is written before the decoding has succeeded.
\<close>
theorem decode_all_or_nothing:
  "(U64_UnmarshalJSON u b = (Failed err, u') \<longrightarrow> u' = u) \<and>
   (HexBytes_UnmarshalJSON h b = (Failed err, h') \<longrightarrow> h' = h) \<and>
   (GUID_UnmarshalJSON dec g b = (Failed err, g') \<longrightarrow> g' = g)"
  using U64_failure_keeps HexBytes_failure_keeps GUID_failure_keeps by blast

theorem decode_all_or_nothing_witness:
  \<open>U64_UnmarshalJSON 5 ''"x"'' = (Failed MalformedNumber, 5) \<and>
   HexBytes_UnmarshalJSON [0x12] ''"0xA="'' = (Failed MalformedBytes, [0x12]) \<and>
   GUID_UnmarshalJSON token_address_decode \<lparr>CreationNumber = 9, AccountAddress = Some ''"0x2"''\<rparr>
       ''{"account_address":"0x1","creation_number":"x"}''
     = (Failed MalformedNumber, \<lparr>CreationNumber = 9, AccountAddress = Some ''"0x2"''\<rparr>)\<close>
proof -
  have u: \<open>U64_UnmarshalJSON 5 ''"x"'' = (Failed MalformedNumber, 5)\<close>
    by (simp add: u64_defs char_defs scan_defs json_defs)
  have h: \<open>HexBytes_UnmarshalJSON [0x12] ''"0xA="'' = (Failed MalformedBytes, [0x12])\<close>
    by (simp add: char_defs scan_defs json_defs hex_defs)
  have st: \<open>fst (GUID_UnmarshalJSON token_address_decode
        \<lparr>CreationNumber = 9, AccountAddress = Some ''"0x2"''\<rparr>
        ''{"account_address":"0x1","creation_number":"x"}'') = Failed MalformedNumber\<close>
    by (simp add: u64_defs char_defs scan_defs json_defs guid_defs)
  obtain g' where g: \<open>GUID_UnmarshalJSON token_address_decode
        \<lparr>CreationNumber = 9, AccountAddress = Some ''"0x2"''\<rparr>
        ''{"account_address":"0x1","creation_number":"x"}'' = (Failed MalformedNumber, g')\<close>
    using st by (metis prod.collapse)
  from decode_all_or_nothing [where dec = token_address_decode and err = MalformedNumber
      and g = \<open>\<lparr>CreationNumber = 9, AccountAddress = Some ''"0x2"''\<rparr>\<close>
      and b = \<open>''{"account_address":"0x1","creation_number":"x"}''\<close> and g' = g'] g
  have \<open>g' = \<lparr>CreationNumber = 9, AccountAddress = Some ''"0x2"''\<rparr>\<close>
    by blast
  with u h g show ?thesis by simp
qed

text \<open>
  C8. \<^verbatim>\<open>U64\<close> always encodes as a JSON string and never as a bare number: a double
  quote, the decimal digits of the value, a double quote; the token is a valid JSON string
  whose content is those digits. And so the encoding of a \<^verbatim>\<open>GUID\<close> holds its creation
  number between quotes, whatever token it was decoded from (the witness decodes the bare
  number \<^verbatim>\<open>5\<close> and encodes \<^verbatim>\<open>"5"\<close>).
\<close>
theorem U64_encodes_as_string:
  \<open>U64_MarshalJSON v = Inr (quote # Sprintf_d (unat v) @ [quote]) \<and>
   Sprintf_d (unat v) \<noteq> [] \<and> list_all isDigit (Sprintf_d (unat v)) \<and>
   digitsValue (Sprintf_d (unat v)) = unat v \<and>
   json_Unmarshal_string (quote # Sprintf_d (unat v) @ [quote]) [] = (Ok, Sprintf_d (unat v)) \<and>
   ((case AccountAddress g of None \<Rightarrow> Inr ''null'' | Some a \<Rightarrow> enc a) = Inr aa \<longrightarrow>
      GUID_MarshalJSON enc g =
        Inr (''{"creation_number":'' @ quote # Sprintf_d (unat (CreationNumber g)) @ [quote]
             @ '',"account_address":'' @ aa @ ''}''))\<close>
proof -
  have \<open>GUID_MarshalJSON enc g =
        Inr (''{"creation_number":'' @ quote # Sprintf_d (unat (CreationNumber g)) @ [quote]
             @ '',"account_address":'' @ aa @ ''}'')\<close>
    if "(case AccountAddress g of None \<Rightarrow> Inr ''null'' | Some a \<Rightarrow> enc a) = Inr aa"
    using that
    by (simp add: GUID_MarshalJSON_def U64_MarshalJSON_eq json_Marshal_string_def htmlSafe_def char_defs)
  then show ?thesis
    using Sprintf_d_digits [of "unat v"]
    by (simp add: U64_MarshalJSON_eq Sprintf_d_nonempty digitsValue_Sprintf_d
          json_Unmarshal_string_quoted digits_plain)
qed

theorem U64_encodes_as_string_witness:
  \<open>GUID_UnmarshalJSON token_address_decode \<lparr>CreationNumber = 0, AccountAddress = None\<rparr>
       ''{"creation_number":5,"account_address":"0x1"}''
     = (Ok, \<lparr>CreationNumber = 5, AccountAddress = Some ''"0x1"''\<rparr>) \<and>
   token_address_encode ''"0x1"'' = Inr ''"0x1"'' \<and>
   GUID_MarshalJSON token_address_encode \<lparr>CreationNumber = 5, AccountAddress = Some ''"0x1"''\<rparr>
     = Inr ''{"creation_number":"5","account_address":"0x1"}''\<close>
  using U64_encodes_as_string [where v = 5 and enc = token_address_encode
      and g = \<open>\<lparr>CreationNumber = 5, AccountAddress = Some ''"0x1"''\<rparr>\<close> and aa = \<open>''"0x1"''\<close>]
  by (simp add: u64_defs char_defs scan_defs json_defs guid_defs)




end
